theory Spec2Isabelle
  imports Main "HOL-Library.Sublist"
begin

section \<open>JavaScript strings\<close>

text \<open>
  A JavaScript string is a sequence of UTF-16 code units. Here a string is a
  \<open>char list\<close>, each \<open>char\<close> standing for the code unit of the same number, so
  the model covers the code units 0 to 255 (the Latin-1 block), which contains every
  character the program's patterns mention. On these strings \<open>toLowerCase\<close> acts
  on each code unit alone. Beyond Latin-1 it does not (a capital sigma becomes one of
  two small letters, by its neighbours), so no statement below relies on lower-casing
  a string piece by piece.

  \<open>isSpace\<close> is the class \<open>\s\<close> of a JavaScript regular expression, which is also
  the set of characters \<open>String.prototype.trim\<close> strips: within Latin-1 these are
  tab, line feed, vertical tab, form feed, carriage return, space and no-break space.
\<close>

definition isSpace :: "char \<Rightarrow> bool" where
  "isSpace c \<longleftrightarrow>
     c = CHR 0x09 \<or> c = CHR 0x0A \<or> c = CHR 0x0B \<or> c = CHR 0x0C \<or> c = CHR 0x0D \<or>
     c = CHR 0x20 \<or> c = CHR 0xA0"

definition trim :: "string \<Rightarrow> string" where
  "trim s = rev (dropWhile isSpace (rev (dropWhile isSpace s)))"

text \<open>
  \<open>toLowerCase\<close> within Latin-1: the letters A to Z and the accented capitals
  0xC0 to 0xDE (the multiplication sign 0xD7 apart) move up by 0x20. Bit 5 is clear in
  every such code unit, so adding 0x20 is setting bit 5.
\<close>

definition isUpperChar :: "char \<Rightarrow> bool" where
  "isUpperChar c \<longleftrightarrow>
     (let n = (of_char c :: nat)
      in (65 \<le> n \<and> n \<le> 90) \<or> (192 \<le> n \<and> n \<le> 222 \<and> n \<noteq> 215))"

definition toLowerChar :: "char \<Rightarrow> char" where
  "toLowerChar c =
     (if isUpperChar c
      then (case c of Char b0 b1 b2 b3 b4 b5 b6 b7 \<Rightarrow> Char b0 b1 b2 b3 b4 True b6 b7)
      else c)"

definition toLowerCase :: "string \<Rightarrow> string" where
  "toLowerCase s = map toLowerChar s"

text \<open>\<open>s.startsWith(p)\<close>.\<close>

fun startsWith :: "string \<Rightarrow> string \<Rightarrow> bool" where
  "startsWith s [] = True"
| "startsWith [] (p # ps) = False"
| "startsWith (c # cs) (p # ps) = (c = p \<and> startsWith cs ps)"

text \<open>\<open>s.includes(p)\<close>, which is also the search of a regular expression that is a literal.\<close>

fun includesStr :: "string \<Rightarrow> string \<Rightarrow> bool" where
  "includesStr [] p = (p = [])"
| "includesStr (c # cs) p = (startsWith (c # cs) p \<or> includesStr cs p)"

text \<open>
  \<open>s.split(/\s+/)\<close>: the pieces between the maximal runs of white space. White space
  at the start or at the end of \<open>s\<close> leaves an empty piece there, and the empty
  string splits into one empty piece. The flag says that the scan is inside a run.
\<close>

fun splitWsFrom :: "bool \<Rightarrow> string \<Rightarrow> string list" where
  "splitWsFrom inRun [] = [[]]"
| "splitWsFrom inRun (c # cs) =
     (if isSpace c then (if inRun then splitWsFrom True cs else [] # splitWsFrom True cs)
      else (case splitWsFrom False cs of
              [] \<Rightarrow> [[c]]
            | t # ts \<Rightarrow> (c # t) # ts))"

definition splitWs :: "string \<Rightarrow> string list" where
  "splitWs s = splitWsFrom False s"

text \<open>\<open>parts.join(sep)\<close>.\<close>

fun joinWith :: "string \<Rightarrow> string list \<Rightarrow> string" where
  "joinWith sep [] = []"
| "joinWith sep [x] = x"
| "joinWith sep (x # y # ys) = x @ sep @ joinWith sep (y # ys)"

section \<open>pathUtils.ts: the command classifier and the deny-list\<close>

text \<open>
  The regular expressions of \<open>isSafeCommand\<close>. Each matcher scans the string from the
  left and tries the pattern at every position, as \<open>RegExp.prototype.test\<close> does on a
  fresh expression.

  \<open>reCharWsStr x y\<close> is the search for \<open>x\s*y\<close> with \<open>x\<close> a character and \<open>y\<close> a
  literal that starts with a character outside \<open>\s\<close>: the run of white space after
  \<open>x\<close> has to be consumed whole.
\<close>

fun reCharWsStr :: "char \<Rightarrow> string \<Rightarrow> string \<Rightarrow> bool" where
  "reCharWsStr x y [] = False"
| "reCharWsStr x y (c # cs) =
     ((c = x \<and> startsWith (dropWhile isSpace cs) y) \<or> reCharWsStr x y cs)"

text \<open>The search for a backtick, any characters other than a single quote, a backtick.\<close>

fun reBacktick :: "string \<Rightarrow> bool" where
  "reBacktick [] = False"
| "reBacktick (c # cs) =
     ((c = CHR 0x60 \<and> CHR 0x60 \<in> set (takeWhile (\<lambda>d. d \<noteq> CHR 0x27) cs)) \<or> reBacktick cs)"

definition pathTraversalPatterns :: "(string \<Rightarrow> bool) list" where
  "pathTraversalPatterns =
     [ (\<lambda>s. includesStr s ''../''),
       (\<lambda>s. includesStr s [CHR ''.'', CHR ''.'', CHR 0x5C]),
       (\<lambda>s. includesStr s ''/..''),
       (\<lambda>s. includesStr s [CHR 0x5C, CHR ''.'', CHR ''.'']) ]"

definition dangerousPatterns :: "(string \<Rightarrow> bool) list" where
  "dangerousPatterns =
     [ (\<lambda>s. includesStr s ''$(''),
       reBacktick,
       reCharWsStr (CHR ''|'') ''sudo'',
       reCharWsStr (CHR '';'') ''sudo'',
       reCharWsStr (CHR ''&'') ''&'',
       reCharWsStr (CHR ''|'') ''|'' ]"

definition pipeCount :: "string \<Rightarrow> nat" where
  "pipeCount command = length (filter (\<lambda>c. c = CHR ''|'') command)"

definition isSafeCommand :: "string \<Rightarrow> bool" where
  "isSafeCommand command =
     (if list_ex (\<lambda>pattern. pattern command) pathTraversalPatterns then False
      else if list_ex (\<lambda>pattern. pattern command) dangerousPatterns then False
      else if pipeCount command > 1 then False
      else True)"

definition extractBaseCommand :: "string \<Rightarrow> string" where
  "extractBaseCommand fullCommand =
     (case splitWs (trim fullCommand) of [] \<Rightarrow> [] | p # ps \<Rightarrow> p)"

definition isForbiddenCommand :: "string \<Rightarrow> string list \<Rightarrow> bool" where
  "isForbiddenCommand command forbiddenCommands =
     (let normalizedCommand = toLowerCase (trim command)
      in list_ex (\<lambda>forbidden.
           let forbiddenLower = toLowerCase forbidden
           in if startsWith normalizedCommand forbiddenLower then True
              else if \<not> includesStr forbidden '' '' then
                     (if toLowerCase (extractBaseCommand command) = forbiddenLower then True
                      else False)
              else False) forbiddenCommands)"

section \<open>Node's POSIX path module\<close>

text \<open>
  \<open>validatePath\<close> and \<open>resolvePath\<close> call \<open>path.resolve\<close>, \<open>path.normalize\<close>,
  \<open>path.join\<close> and \<open>path.isAbsolute\<close> of the Node standard library. They are
  modelled here for POSIX paths, where the only separator is the slash.

  \<open>splitSlash\<close> cuts a path at every slash. \<open>normalizeSegments\<close> is the loop of
  Node's \<open>normalizeString\<close> on those pieces, with the segments kept so far as a stack
  (last segment first): an empty piece and \<open>.\<close> are skipped; \<open>..\<close> removes the last
  kept segment unless there is none or it is \<open>..\<close> itself, and then \<open>..\<close> is kept
  when \<open>allowAboveRoot\<close> holds and skipped otherwise; any other piece is kept.
\<close>

fun splitSlash :: "string \<Rightarrow> string list" where
  "splitSlash [] = [[]]"
| "splitSlash (c # cs) =
     (if c = CHR ''/'' then [] # splitSlash cs
      else (case splitSlash cs of
              [] \<Rightarrow> [[c]]
            | t # ts \<Rightarrow> (c # t) # ts))"

fun normalizeSegments :: "bool \<Rightarrow> string list \<Rightarrow> string list \<Rightarrow> string list" where
  "normalizeSegments allowAboveRoot res [] = rev res"
| "normalizeSegments allowAboveRoot res (g # gs) =
     (if g = [] \<or> g = ''.'' then normalizeSegments allowAboveRoot res gs
      else if g = ''..'' then
        (case res of
           [] \<Rightarrow> normalizeSegments allowAboveRoot (if allowAboveRoot then [''..''] else []) gs
         | t # ts \<Rightarrow>
             if t \<noteq> ''..'' then normalizeSegments allowAboveRoot ts gs
             else normalizeSegments allowAboveRoot
                    (if allowAboveRoot then ''..'' # res else res) gs)
      else normalizeSegments allowAboveRoot (g # res) gs)"

definition normalizeString :: "string \<Rightarrow> bool \<Rightarrow> string" where
  "normalizeString path allowAboveRoot =
     joinWith ''/'' (normalizeSegments allowAboveRoot [] (splitSlash path))"

definition isAbsolute :: "string \<Rightarrow> bool" where
  "isAbsolute path = (case path of [] \<Rightarrow> False | c # cs \<Rightarrow> c = CHR ''/'')"

text \<open>
  \<open>path.resolve\<close> walks its arguments from the last to the first, and then the
  working directory of the process, until the path built so far is absolute; empty
  arguments are skipped. \<open>resolveLoop\<close> takes the arguments in the order of the walk.
\<close>

fun resolveLoop :: "string list \<Rightarrow> string \<Rightarrow> string \<times> bool" where
  "resolveLoop [] resolvedPath = (resolvedPath, False)"
| "resolveLoop (p # ps) resolvedPath =
     (if p = [] then resolveLoop ps resolvedPath
      else if isAbsolute p then (p @ ''/'' @ resolvedPath, True)
      else resolveLoop ps (p @ ''/'' @ resolvedPath))"

definition resolve :: "string \<Rightarrow> string list \<Rightarrow> string" where
  "resolve processCwd args =
     (case resolveLoop (rev args @ [processCwd]) [] of
        (resolvedPath, resolvedAbsolute) \<Rightarrow>
          (let normalized = normalizeString resolvedPath (\<not> resolvedAbsolute)
           in if resolvedAbsolute then ''/'' @ normalized
              else if normalized \<noteq> [] then normalized else ''.''))"

definition normalize :: "string \<Rightarrow> string" where
  "normalize path =
     (if path = [] then ''.''
      else
        (let absolute = isAbsolute path;
             trailingSeparator = (last path = CHR ''/'');
             p = normalizeString path (\<not> absolute)
         in if p = [] then (if absolute then ''/'' else if trailingSeparator then ''./'' else ''.'')
            else (let p' = (if trailingSeparator then p @ ''/'' else p)
                  in if absolute then ''/'' @ p' else p')))"

text \<open>\<open>path.join\<close>: the non-empty arguments joined by slashes, then normalized.\<close>

definition join :: "string list \<Rightarrow> string" where
  "join args =
     (let joined = joinWith ''/'' (filter (\<lambda>a. a \<noteq> []) args)
      in if joined = [] then ''.'' else normalize joined)"

section \<open>pathUtils.ts: path validation\<close>

text \<open>
  \<open>validatePath\<close> returns the normalized absolute path, or \<open>None\<close> for \<open>null\<close>.
  The functions of the path module do not throw on strings, so the \<open>catch\<close> branch
  is never taken. The working directory of the process is a parameter, since
  \<open>path.resolve\<close> reads it when \<open>currentDir\<close> is relative.
\<close>

definition validatePath :: "string \<Rightarrow> string \<Rightarrow> string \<Rightarrow> string \<Rightarrow> string option" where
  "validatePath processCwd commandPath allowedDir currentDir =
     (let resolvedPath = resolve processCwd [currentDir, commandPath];
          normalizedPath = normalize resolvedPath;
          normalizedAllowed = normalize allowedDir
      in if \<not> startsWith normalizedPath normalizedAllowed then None
         else Some normalizedPath)"

section \<open>shellService.ts: the data model\<close>

record ShellConfig =
  enabled :: bool
  allowedDirectory :: string
  timeout :: nat
  forbiddenCommands :: "string list"

text \<open>\<open>exitCode: number | null\<close> is an \<open>int option\<close>; the optional \<open>error\<close> a \<open>string option\<close>.\<close>

record CommandResult =
  success :: bool
  stdout :: string
  stderr :: string
  exitCode :: "int option"
  error :: "string option"
  executedIn :: string

text \<open>
  The union of the string literals of \<open>FileOperation.type\<close> is a datatype, with
  capitalised constructors, and the field \<open>type\<close> is called \<open>opType\<close>.
\<close>

datatype FileOperationType = Create | Write | Read | Delete | Mkdir | Move | Copy

record FileOperation =
  opType :: FileOperationType
  target :: string
  secondaryTarget :: "string option"

text \<open>
  The fields \<open>stdout\<close>, \<open>stderr\<close> and \<open>exitCode\<close> of a history entry carry the
  prefix \<open>entry\<close> here, since a field name belongs to one record type.
\<close>

record CommandHistoryEntry =
  command :: string
  entryStdout :: string
  entryStderr :: string
  entryExitCode :: "int option"
  timestamp :: nat
  workingDirectory :: string
  fileOperations :: "FileOperation list option"

text \<open>The mutable fields of the service: the cursor and the history of each conversation.\<close>

record ShellService =
  shellConfig :: ShellConfig
  currentDirectory :: string
  commandHistory :: "string \<rightharpoonup> CommandHistoryEntry list"

definition maxHistoryPerConversation :: nat where
  "maxHistoryPerConversation = 100"

text \<open>The constructor, with the loaded configuration as its argument.\<close>

definition newShellService :: "ShellConfig \<Rightarrow> ShellService" where
  "newShellService config =
     \<lparr> shellConfig = config,
       currentDirectory = allowedDirectory config,
       commandHistory = Map.empty \<rparr>"

text \<open>
  What is outside the program during one call: the working directory of the process,
  the clock read by \<open>Date.now()\<close>, and the child process. \<open>spawnChild cmd args cwd\<close>
  is the first event the child delivers: its exit, with the exit code (\<open>null\<close> when a
  signal ended it), the output collected so far and whether the timeout had fired
  before; or a spawn error with its message and the output collected so far.
\<close>

datatype ChildEvent =
  ExitEvent "int option" string string bool
| ErrorEvent string string

text \<open>
  Before it starts anything, \<open>spawn\<close> checks its arguments and throws a
  \<open>TypeError\<close> with the code \<open>ERR_INVALID_ARG_VALUE\<close> for an empty program name
  and for a NUL character in the program name, in an argument or in the working
  directory. No event follows such a throw.
\<close>

datatype Thrown = ERR_INVALID_ARG_VALUE

definition hasNul :: "string \<Rightarrow> bool" where
  "hasNul a \<longleftrightarrow> CHR 0x00 \<in> set a"

definition spawnThrows :: "string \<Rightarrow> string list \<Rightarrow> string \<Rightarrow> bool" where
  "spawnThrows cmd args cwd \<longleftrightarrow>
     cmd = [] \<or> hasNul cmd \<or> list_ex hasNul args \<or> hasNul cwd"

record World =
  processCwd :: string
  dateNow :: nat
  spawnChild :: "string \<Rightarrow> string list \<Rightarrow> string \<Rightarrow> ChildEvent"

section \<open>shellService.ts: the operations\<close>

definition handleCdCommand :: "World \<Rightarrow> ShellService \<Rightarrow> string \<Rightarrow> CommandResult \<times> ShellService" where
  "handleCdCommand w s cmd =
     (let parts = splitWs cmd
      in if length parts < 2 then
           (let s' = s\<lparr>currentDirectory := allowedDirectory (shellConfig s)\<rparr>
            in (\<lparr> success = True,
                  stdout = ''Changed directory to: '' @ currentDirectory s',
                  stderr = [],
                  exitCode = Some 0,
                  error = None,
                  executedIn = currentDirectory s' \<rparr>, s'))
         else
           (let targetPath = joinWith '' '' (tl parts);
                validatedPath = validatePath (processCwd w) targetPath
                                  (allowedDirectory (shellConfig s)) (currentDirectory s)
            in case validatedPath of
                 None \<Rightarrow>
                   (\<lparr> success = False,
                      stdout = [],
                      stderr = ''Cannot navigate outside allowed directory'',
                      exitCode = Some 1,
                      error = Some ''Permission denied'',
                      executedIn = currentDirectory s \<rparr>, s)
               | Some v \<Rightarrow>
                   if v = [] then
                     (\<lparr> success = False,
                        stdout = [],
                        stderr = ''Cannot navigate outside allowed directory'',
                        exitCode = Some 1,
                        error = Some ''Permission denied'',
                        executedIn = currentDirectory s \<rparr>, s)
                   else
                     (let s' = s\<lparr>currentDirectory := v\<rparr>
                      in (\<lparr> success = True,
                            stdout = ''Changed directory to: '' @ currentDirectory s',
                            stderr = [],
                            exitCode = Some 0,
                            error = None,
                            executedIn = currentDirectory s' \<rparr>, s'))))"

text \<open>
  The first half of \<open>runCommand\<close>: the program and the arguments given to
  \<open>spawn\<close>. A command with a redirect or a pipe goes to \<open>sh -c\<close> as one argument;
  any other command is split at white space and started directly.
\<close>

definition spawnArguments :: "string \<Rightarrow> string \<times> string list" where
  "spawnArguments cmdline =
     (let useShell = (includesStr cmdline ''>'' \<or> includesStr cmdline ''<'' \<or> includesStr cmdline ''|'');
          parts = splitWs cmdline
      in if useShell then (''sh'', [''-c'', cmdline])
         else ((case parts of [] \<Rightarrow> [] | p # ps \<Rightarrow> p), tl parts))"

text \<open>
  The second half: \<open>spawn\<close> is called inside the executor of the promise. When it
  throws, the promise is rejected and there is no result (\<open>Inl\<close>); otherwise the
  result is the one built in the \<open>exit\<close> or the \<open>error\<close> handler (\<open>Inr\<close>).
\<close>

definition runCommand :: "World \<Rightarrow> ShellService \<Rightarrow> string \<Rightarrow> Thrown + CommandResult" where
  "runCommand w s cmdline =
     (case spawnArguments cmdline of
        (cmd, args) \<Rightarrow>
          if spawnThrows cmd args (currentDirectory s) then Inl ERR_INVALID_ARG_VALUE
          else
            (case spawnChild w cmd args (currentDirectory s) of
               ExitEvent code out err timedOut \<Rightarrow>
                 if timedOut then
                   Inr \<lparr> success = False,
                         stdout = out,
                         stderr = err @ [CHR 0x0A] @ ''Command timed out'',
                         exitCode = code,
                         error = Some ''Command execution timeout'',
                         executedIn = currentDirectory s \<rparr>
                 else
                   Inr \<lparr> success = (code = Some 0),
                         stdout = out,
                         stderr = err,
                         exitCode = code,
                         error = None,
                         executedIn = currentDirectory s \<rparr>
             | ErrorEvent message out \<Rightarrow>
                 Inr \<lparr> success = False,
                       stdout = out,
                       stderr = message,
                       exitCode = Some 1,
                       error = Some ''Failed to execute command'',
                       executedIn = currentDirectory s \<rparr>))"

text \<open>
  \<open>conversationId\<close> is \<open>None\<close> for \<open>undefined\<close>; \<open>!conversationId\<close> also holds for
  the empty string. The array of a conversation grows at the end and, once longer
  than the maximum, loses its first entry.
\<close>

definition makeHistoryEntry ::
  "World \<Rightarrow> string \<Rightarrow> CommandResult \<Rightarrow> FileOperation list option \<Rightarrow> CommandHistoryEntry" where
  "makeHistoryEntry w cmd result fileOps =
     \<lparr> command = cmd,
       entryStdout = stdout result,
       entryStderr = stderr result,
       entryExitCode = exitCode result,
       timestamp = dateNow w,
       workingDirectory = executedIn result,
       fileOperations = fileOps \<rparr>"

definition addToHistory ::
  "World \<Rightarrow> ShellService \<Rightarrow> string option \<Rightarrow> string \<Rightarrow> CommandResult \<Rightarrow>
   FileOperation list option \<Rightarrow> ShellService" where
  "addToHistory w s conversationId cmd result fileOps =
     (case conversationId of
        None \<Rightarrow> s
      | Some cid \<Rightarrow>
          if cid = [] then s
          else
            (let historyEntry = makeHistoryEntry w cmd result fileOps;
                 history = (case commandHistory s cid of None \<Rightarrow> [] | Some h \<Rightarrow> h);
                 pushed = history @ [historyEntry];
                 trimmed = (if length pushed > maxHistoryPerConversation then tl pushed else pushed)
             in s\<lparr>commandHistory := (commandHistory s)(cid \<mapsto> trimmed)\<rparr>))"

definition resolvePath :: "string \<Rightarrow> string \<Rightarrow> string" where
  "resolvePath filePath cwd = (if isAbsolute filePath then filePath else join [cwd, filePath])"

text \<open>
  The search for \<open>>\s*([^\s]+)$\<close>: the first \<open>>\<close> that is followed, after white
  space, by a non-empty run without white space that reaches the end of the string;
  the result is the captured group.
\<close>

fun reRedirectTarget :: "string \<Rightarrow> string option" where
  "reRedirectTarget [] = None"
| "reRedirectTarget (c # cs) =
     (let rest = dropWhile isSpace cs
      in if c = CHR ''>'' \<and> rest \<noteq> [] \<and> \<not> list_ex isSpace rest then Some rest
         else reRedirectTarget cs)"

definition detectFileOperations :: "string \<Rightarrow> string \<Rightarrow> FileOperation list option" where
  "detectFileOperations cmdline cwd =
     (let parts = splitWs (trim cmdline);
          cmd = toLowerCase (case parts of [] \<Rightarrow> [] | p # ps \<Rightarrow> p);
          operations =
            (if cmd = ''touch'' \<and> length parts > 1 then
               [\<lparr> opType = Create, target = resolvePath (parts ! 1) cwd, secondaryTarget = None \<rparr>]
             else if cmd = ''echo'' \<and> includesStr cmdline ''>'' then
               (case reRedirectTarget cmdline of
                  None \<Rightarrow> []
                | Some m \<Rightarrow> [\<lparr> opType = Write, target = resolvePath m cwd, secondaryTarget = None \<rparr>])
             else if cmd = ''mkdir'' \<and> length parts > 1 then
               [\<lparr> opType = Mkdir, target = resolvePath (parts ! 1) cwd, secondaryTarget = None \<rparr>]
             else if cmd = ''cat'' \<and> length parts > 1 \<and> \<not> includesStr cmdline ''>'' then
               [\<lparr> opType = Read, target = resolvePath (parts ! 1) cwd, secondaryTarget = None \<rparr>]
             else if cmd = ''mv'' \<and> length parts > 2 then
               [\<lparr> opType = Move, target = resolvePath (parts ! 1) cwd,
                   secondaryTarget = Some (resolvePath (parts ! 2) cwd) \<rparr>]
             else if cmd = ''cp'' \<and> length parts > 2 then
               [\<lparr> opType = Copy, target = resolvePath (parts ! 1) cwd,
                   secondaryTarget = Some (resolvePath (parts ! 2) cwd) \<rparr>]
             else [])
      in if length operations > 0 then Some operations else None)"

text \<open>
  The result of each early return of \<open>executeCommand\<close>: a failure with exit code 1,
  the given text on \<open>stderr\<close> and the given \<open>error\<close>, at the current cursor.
\<close>

definition rejected :: "ShellService \<Rightarrow> string \<Rightarrow> string \<Rightarrow> CommandResult" where
  "rejected s err msg =
     \<lparr> success = False, stdout = [], stderr = err, exitCode = Some 1,
       error = Some msg, executedIn = currentDirectory s \<rparr>"

text \<open>
  \<open>executeCommand\<close> does not catch what \<open>runCommand\<close> throws: the call is then
  rejected (\<open>Inl\<close>) before anything is added to the history.
\<close>

definition executeCommand ::
  "World \<Rightarrow> ShellService \<Rightarrow> string \<Rightarrow> string option \<Rightarrow>
   (Thrown + CommandResult) \<times> ShellService" where
  "executeCommand w s cmdline conversationId =
     (if \<not> enabled (shellConfig s) then
        (Inr (rejected s ''Shell plugin is disabled. Set SHELL_ENABLED=true to enable.''
                ''Shell plugin disabled''), s)
      else if cmdline = [] then
        (Inr (rejected s ''Invalid command'' ''Command must be a non-empty string''), s)
      else
        (let trimmedCommand = trim cmdline
         in if \<not> isSafeCommand trimmedCommand then
              (Inr (rejected s ''Command contains forbidden patterns'' ''Security policy violation''), s)
            else if isForbiddenCommand trimmedCommand (forbiddenCommands (shellConfig s)) then
              (Inr (rejected s ''Command is forbidden by security policy'' ''Forbidden command''), s)
            else if startsWith trimmedCommand ''cd '' then
              (case handleCdCommand w s trimmedCommand of
                 (result, s') \<Rightarrow>
                   (Inr result, addToHistory w s' conversationId trimmedCommand result None))
            else
              (case runCommand w s trimmedCommand of
                 Inl thrown \<Rightarrow> (Inl thrown, s)
               | Inr result \<Rightarrow>
                   if success result then
                     (let fileOps = detectFileOperations trimmedCommand (currentDirectory s)
                      in if fileOps \<noteq> None \<and> conversationId \<noteq> None \<and> conversationId \<noteq> Some []
                         then (Inr result, addToHistory w s conversationId trimmedCommand result fileOps)
                         else (Inr result, addToHistory w s conversationId trimmedCommand result None))
                   else (Inr result, addToHistory w s conversationId trimmedCommand result None))))"

definition getCommandHistory :: "ShellService \<Rightarrow> string \<Rightarrow> nat option \<Rightarrow> CommandHistoryEntry list" where
  "getCommandHistory s conversationId limit =
     (let history = (case commandHistory s conversationId of None \<Rightarrow> [] | Some h \<Rightarrow> h)
      in case limit of
           None \<Rightarrow> history
         | Some l \<Rightarrow> if l > 0 then drop (length history - l) history else history)"

definition clearCommandHistory :: "ShellService \<Rightarrow> string \<Rightarrow> ShellService" where
  "clearCommandHistory s conversationId =
     s\<lparr>commandHistory := (commandHistory s)(conversationId := None)\<rparr>"

definition getCurrentDirectory :: "ShellService \<Rightarrow> string" where
  "getCurrentDirectory s = currentDirectory s"

definition getAllowedDirectory :: "ShellService \<Rightarrow> string" where
  "getAllowedDirectory s = allowedDirectory (shellConfig s)"

section \<open>Notions of the specification\<close>

text \<open>
  A path lies within a root when it is the root itself or when the segments of the
  root are a proper prefix of its segments: the comparison is by whole segments.
\<close>

definition pathSegments :: "string \<Rightarrow> string list" where
  "pathSegments p = filter (\<lambda>g. g \<noteq> []) (splitSlash p)"

definition withinAllowed :: "string \<Rightarrow> string \<Rightarrow> bool" where
  "withinAllowed root p \<longleftrightarrow> p = root \<or> strict_prefix (pathSegments root) (pathSegments p)"

section \<open>The languages of the classifier's regular expressions\<close>

text \<open>
  What each regular expression of \<open>isSafeCommand\<close> matches, said without a scan: a
  command has a pattern when some piece of it has the pattern's shape. These are the
  patterns as the code has them: \<open>hasSpaced x y\<close> lets any run of white space stand
  between \<open>x\<close> and \<open>y\<close>, so that \<open>& &\<close> counts like \<open>&&\<close>, and
  \<open>hasBacktickPair\<close> takes any two backticks without a single quote between them,
  whether or not they stand inside a single-quoted span.
\<close>

definition hasTraversal :: "string \<Rightarrow> bool" where
  "hasTraversal c \<longleftrightarrow>
     sublist ''../'' c \<or> sublist [CHR ''.'', CHR ''.'', CHR 0x5C] c \<or>
     sublist ''/..'' c \<or> sublist [CHR 0x5C, CHR ''.'', CHR ''.''] c"

definition hasDollarParen :: "string \<Rightarrow> bool" where
  "hasDollarParen c \<longleftrightarrow> sublist ''$('' c"

definition hasBacktickPair :: "string \<Rightarrow> bool" where
  "hasBacktickPair c \<longleftrightarrow>
     (\<exists>mid. CHR 0x27 \<notin> set mid \<and> sublist (CHR 0x60 # mid @ [CHR 0x60]) c)"

definition hasSpaced :: "char \<Rightarrow> string \<Rightarrow> string \<Rightarrow> bool" where
  "hasSpaced x y c \<longleftrightarrow> (\<exists>ws. list_all isSpace ws \<and> sublist (x # ws @ y) c)"

section \<open>Notions for the statements about the cursor and the history\<close>

text \<open>A plain segment of a path: not empty, not \<open>.\<close> or \<open>..\<close>, and without a slash.\<close>

definition plainSegment :: "string \<Rightarrow> bool" where
  "plainSegment g \<longleftrightarrow> g \<noteq> [] \<and> g \<noteq> ''.'' \<and> g \<noteq> ''..'' \<and> CHR ''/'' \<notin> set g"

text \<open>The absolute path with the given segments; the root directory for no segment.\<close>

definition absPath :: "string list \<Rightarrow> string" where
  "absPath segs = ''/'' @ joinWith ''/'' segs"

text \<open>
  The directory a \<open>cd\<close> command names: the words after the first one, joined by
  single spaces, as \<open>handleCdCommand\<close> reads them from the trimmed command.
\<close>

definition cdTarget :: "string \<Rightarrow> string" where
  "cdTarget cmdline = joinWith '' '' (tl (splitWs (trim cmdline)))"

text \<open>A run of calls of \<open>addToHistory\<close> for one conversation, first call first.\<close>

type_synonym HistoryCall = "World \<times> string \<times> CommandResult \<times> FileOperation list option"

fun addAllToHistory :: "ShellService \<Rightarrow> string option \<Rightarrow> HistoryCall list \<Rightarrow> ShellService" where
  "addAllToHistory s conversationId [] = s"
| "addAllToHistory s conversationId ((w, cmd, result, fileOps) # calls) =
     addAllToHistory (addToHistory w s conversationId cmd result fileOps) conversationId calls"

definition entryOfCall :: "HistoryCall \<Rightarrow> CommandHistoryEntry" where
  "entryOfCall call = (case call of (w, cmd, result, fileOps) \<Rightarrow> makeHistoryEntry w cmd result fileOps)"

section \<open>Example inputs\<close>

definition sandboxConfig :: ShellConfig where
  "sandboxConfig =
     \<lparr> enabled = True, allowedDirectory = ''/sandbox'', timeout = 30000,
       forbiddenCommands = [''rm -rf /''] \<rparr>"

definition allowedConfig :: ShellConfig where
  "allowedConfig =
     \<lparr> enabled = True, allowedDirectory = ''/allowed'', timeout = 30000,
       forbiddenCommands = [''rm -rf /''] \<rparr>"

definition rootConfig :: ShellConfig where
  "rootConfig =
     \<lparr> enabled = True, allowedDirectory = ''/'', timeout = 30000,
       forbiddenCommands = [''rm -rf /''] \<rparr>"

definition okResult :: CommandResult where
  "okResult =
     \<lparr> success = True, stdout = [], stderr = [], exitCode = Some 0, error = None,
       executedIn = ''/sandbox'' \<rparr>"

text \<open>A world where every child exits with code 0 and no output.\<close>

definition quietWorld :: World where
  "quietWorld =
     \<lparr> processCwd = ''/'', dateNow = 0,
       spawnChild = (\<lambda>cmd args cwd. ExitEvent (Some 0) [] [] False) \<rparr>"

text \<open>A world where no program can be started.\<close>

definition brokenWorld :: World where
  "brokenWorld =
     \<lparr> processCwd = ''/'', dateNow = 0,
       spawnChild = (\<lambda>cmd args cwd. ErrorEvent (''spawn '' @ cmd @ '' ENOENT'') []) \<rparr>"

section \<open>Facts about the string functions\<close>

lemmas str_eval =
  trim_def isSpace_def toLowerCase_def toLowerChar_def isUpperChar_def splitWs_def

lemmas path_eval =
  validatePath_def resolve_def normalize_def normalizeString_def isAbsolute_def

lemmas safe_eval =
  isSafeCommand_def pathTraversalPatterns_def dangerousPatterns_def pipeCount_def

text \<open>Lower-casing a capital adds 0x20 to its code unit and leaves every other one as it is.\<close>

lemma toLowerChar_adds_32:
  "(of_char (toLowerChar c) :: nat) = (if isUpperChar c then of_char c + 32 else of_char c)"
proof (cases c)
  case (Char b0 b1 b2 b3 b4 b5 b6 b7)
  show ?thesis
    unfolding Char
    by (cases b0; cases b1; cases b2; cases b3; cases b4; cases b5; cases b6; cases b7)
       (simp_all add: toLowerChar_def isUpperChar_def)
qed

lemma startsWith_prefix: "startsWith s p \<longleftrightarrow> prefix p s"
  by (induction s p rule: startsWith.induct) auto

lemma includesStr_sublist: "includesStr s p \<longleftrightarrow> sublist p s"
  by (induction s) (auto simp: startsWith_prefix sublist_Cons_right)

lemma isForbiddenCommand_prefixI:
  assumes "f \<in> set fs" "prefix (toLowerCase f) (toLowerCase (trim c))"
  shows "isForbiddenCommand c fs"
  using assms by (auto simp: isForbiddenCommand_def Let_def list_ex_iff startsWith_prefix)

subsection \<open>The scanning matchers decide the languages of their patterns\<close>

lemma spaced_prefix_iff:
  assumes "y \<noteq> []" "\<not> isSpace (hd y)"
  shows "(\<exists>ws. list_all isSpace ws \<and> prefix (ws @ y) cs) \<longleftrightarrow> prefix y (dropWhile isSpace cs)"
proof
  assume "\<exists>ws. list_all isSpace ws \<and> prefix (ws @ y) cs"
  then obtain ws r where ws: "list_all isSpace ws" and cs: "cs = ws @ y @ r"
    by (auto simp: prefix_def)
  from assms obtain a ys where y: "y = a # ys" "\<not> isSpace a" by (cases y) auto
  have "dropWhile isSpace cs = y @ r"
    using ws y unfolding cs by (simp add: dropWhile_append3 list_all_iff dropWhile_append2)
  then show "prefix y (dropWhile isSpace cs)" by simp
next
  assume p: "prefix y (dropWhile isSpace cs)"
  have "list_all isSpace (takeWhile isSpace cs)"
    by (simp add: list_all_iff) (meson set_takeWhileD)
  moreover have "prefix (takeWhile isSpace cs @ y) cs"
    using p by (metis prefix_def append.assoc takeWhile_dropWhile_id)
  ultimately show "\<exists>ws. list_all isSpace ws \<and> prefix (ws @ y) cs" by blast
qed

lemma reCharWsStr_hasSpaced:
  assumes "y \<noteq> []" "\<not> isSpace (hd y)"
  shows "reCharWsStr x y s \<longleftrightarrow> hasSpaced x y s"
proof (induction s)
  case Nil
  then show ?case by (simp add: hasSpaced_def)
next
  case (Cons c cs)
  have "hasSpaced x y (c # cs) \<longleftrightarrow>
        (\<exists>ws. list_all isSpace ws \<and> (prefix (x # ws @ y) (c # cs) \<or> sublist (x # ws @ y) cs))"
    by (simp add: hasSpaced_def sublist_Cons_right)
  also have "\<dots> \<longleftrightarrow> (c = x \<and> (\<exists>ws. list_all isSpace ws \<and> prefix (ws @ y) cs)) \<or> hasSpaced x y cs"
    by (auto simp: hasSpaced_def)
  also have "\<dots> \<longleftrightarrow> (c = x \<and> prefix y (dropWhile isSpace cs)) \<or> reCharWsStr x y cs"
    using spaced_prefix_iff [OF assms] Cons.IH by simp
  finally show ?case by (simp add: startsWith_prefix)
qed

lemma backtick_prefix_iff:
  "(\<exists>mid. CHR 0x27 \<notin> set mid \<and> prefix (mid @ [CHR 0x60]) cs)
   \<longleftrightarrow> CHR 0x60 \<in> set (takeWhile (\<lambda>d. d \<noteq> CHR 0x27) cs)"
proof
  assume "\<exists>mid. CHR 0x27 \<notin> set mid \<and> prefix (mid @ [CHR 0x60]) cs"
  then obtain mid r where mid: "CHR 0x27 \<notin> set mid" and cs: "cs = mid @ CHR 0x60 # r"
    by (auto simp: prefix_def)
  have "takeWhile (\<lambda>d. d \<noteq> CHR 0x27) cs = mid @ takeWhile (\<lambda>d. d \<noteq> CHR 0x27) (CHR 0x60 # r)"
    unfolding cs using mid by (intro takeWhile_append2) auto
  then show "CHR 0x60 \<in> set (takeWhile (\<lambda>d. d \<noteq> CHR 0x27) cs)" by simp
next
  assume "CHR 0x60 \<in> set (takeWhile (\<lambda>d. d \<noteq> CHR 0x27) cs)"
  then obtain mid r where tw: "takeWhile (\<lambda>d. d \<noteq> CHR 0x27) cs = mid @ CHR 0x60 # r"
    by (meson split_list)
  have "CHR 0x27 \<notin> set mid"
  proof
    assume "CHR 0x27 \<in> set mid"
    then have "CHR 0x27 \<in> set (takeWhile (\<lambda>d. d \<noteq> CHR 0x27) cs)" unfolding tw by simp
    from set_takeWhileD [OF this] show False by simp
  qed
  moreover have "cs = (mid @ [CHR 0x60]) @ (r @ dropWhile (\<lambda>d. d \<noteq> CHR 0x27) cs)"
    using tw by (metis append.assoc append_Cons append_Nil takeWhile_dropWhile_id)
  then have "prefix (mid @ [CHR 0x60]) cs" by (metis prefixI)
  ultimately show "\<exists>mid. CHR 0x27 \<notin> set mid \<and> prefix (mid @ [CHR 0x60]) cs" by blast
qed

lemma reBacktick_hasBacktickPair: "reBacktick s \<longleftrightarrow> hasBacktickPair s"
proof (induction s)
  case Nil
  then show ?case by (simp add: hasBacktickPair_def)
next
  case (Cons c cs)
  have "hasBacktickPair (c # cs) \<longleftrightarrow>
        (\<exists>mid. CHR 0x27 \<notin> set mid \<and>
           (prefix (CHR 0x60 # mid @ [CHR 0x60]) (c # cs) \<or> sublist (CHR 0x60 # mid @ [CHR 0x60]) cs))"
    by (simp add: hasBacktickPair_def sublist_Cons_right)
  also have "\<dots> \<longleftrightarrow> (c = CHR 0x60 \<and> (\<exists>mid. CHR 0x27 \<notin> set mid \<and> prefix (mid @ [CHR 0x60]) cs))
                     \<or> hasBacktickPair cs"
    by (auto simp: hasBacktickPair_def)
  also have "\<dots> \<longleftrightarrow> (c = CHR 0x60 \<and> CHR 0x60 \<in> set (takeWhile (\<lambda>d. d \<noteq> CHR 0x27) cs)) \<or> reBacktick cs"
    using backtick_prefix_iff [of cs] Cons.IH by simp
  finally show ?case by simp
qed


section \<open>Path validation (C1)\<close>

text \<open>
  C1. The claim: \<open>validatePath\<close> accepts exactly the paths whose normalized
  resolution is the allowed root or lies below it by whole segments, so that
  \<open>/allowed-evil\<close> is rejected for the root \<open>/allowed\<close>. The code compares with
  \<open>startsWith\<close> on the raw strings: for the root \<open>/allowed\<close> and the cursor
  \<open>/allowed\<close> the candidate \<open>/allowed-evil\<close> is accepted and returned, although it
  is not within the root.
\<close>

theorem validatePath_accepts_sibling_of_root:
  "validatePath ''/'' ''/allowed-evil'' ''/allowed'' ''/allowed'' = Some ''/allowed-evil''
   \<and> \<not> withinAllowed ''/allowed'' ''/allowed-evil''"
  by (simp add: path_eval withinAllowed_def pathSegments_def)

section \<open>The cursor (C2)\<close>

text \<open>
  C2. The claim: the cursor starts at the allowed directory and after every call of
  \<open>executeCommand\<close> it is the allowed directory or a descendant of it. The cursor
  does start there, but in a fresh service with the allowed directory \<open>/allowed\<close>
  the command \<open>cd /allowed-evil\<close> moves the cursor to \<open>/allowed-evil\<close>, whatever
  the world: a directory beside the allowed one, not below it.
\<close>

theorem cursor_leaves_allowed_subtree:
  "currentDirectory (newShellService allowedConfig) = allowedDirectory allowedConfig
   \<and> currentDirectory (snd (executeCommand w (newShellService allowedConfig)
                                ''cd /allowed-evil'' (Some ''s1''))) = ''/allowed-evil''
   \<and> \<not> withinAllowed (allowedDirectory allowedConfig) ''/allowed-evil''"
  by (simp add: executeCommand_def newShellService_def allowedConfig_def handleCdCommand_def
        addToHistory_def isForbiddenCommand_def extractBaseCommand_def safe_eval str_eval
        path_eval withinAllowed_def pathSegments_def Let_def)

section \<open>Rejections and the history (C3)\<close>

text \<open>
  C3, as amended. Each of the four early rejections of \<open>executeCommand\<close> (the
  service is disabled, the command is empty, the classifier finds the trimmed command
  unsafe, the deny-list forbids it) returns a failure and leaves the service as it
  was: no entry is added to the history of any conversation. The rejections by the
  classifier and by the deny-list are therefore not recorded either.
\<close>

theorem rejection_leaves_history_unchanged:
  assumes "\<not> enabled (shellConfig s) \<or> cmdline = [] \<or> \<not> isSafeCommand (trim cmdline)
           \<or> isForbiddenCommand (trim cmdline) (forbiddenCommands (shellConfig s))"
  shows "snd (executeCommand w s cmdline conversationId) = s
         \<and> (\<exists>result. fst (executeCommand w s cmdline conversationId) = Inr result
                \<and> \<not> success result \<and> exitCode result = Some 1)"
  using assms by (auto simp: executeCommand_def rejected_def Let_def)

text \<open>The theorem at the command \<open>ls | grep x | wc -l\<close>, which the classifier rejects.\<close>

theorem rejection_leaves_history_unchanged_witness:
  "\<not> isSafeCommand (trim ''ls | grep x | wc -l'')
   \<and> snd (executeCommand quietWorld (newShellService sandboxConfig)
             ''ls | grep x | wc -l'' (Some ''s1'')) = newShellService sandboxConfig"
proof -
  have unsafe: "\<not> isSafeCommand (trim ''ls | grep x | wc -l'')"
    by (simp add: safe_eval str_eval)
  then show ?thesis
    using rejection_leaves_history_unchanged
            [of "newShellService sandboxConfig" "''ls | grep x | wc -l''" quietWorld "Some ''s1''"]
    by blast
qed

text \<open>
  The claim as stated fails: after the rejected command \<open>ls | grep x | wc -l\<close>, and
  after the forbidden command \<open>rm -rf /\<close>, the conversation \<open>s1\<close> has no history.
\<close>

theorem rejected_commands_are_not_recorded:
  "\<not> isSafeCommand (trim ''ls | grep x | wc -l'')
   \<and> commandHistory (snd (executeCommand quietWorld (newShellService sandboxConfig)
                            ''ls | grep x | wc -l'' (Some ''s1''))) ''s1'' = None
   \<and> isSafeCommand (trim ''rm -rf /'')
   \<and> isForbiddenCommand (trim ''rm -rf /'') (forbiddenCommands sandboxConfig)
   \<and> commandHistory (snd (executeCommand quietWorld (newShellService sandboxConfig)
                            ''rm -rf /'' (Some ''s1''))) ''s1'' = None"
  by (simp add: executeCommand_def newShellService_def sandboxConfig_def isForbiddenCommand_def
        safe_eval str_eval Let_def)

section \<open>The deny-list (C4)\<close>

text \<open>
  C4, as amended. The matcher is case-insensitive: \<open>rm -rf /\<close> and \<open>RM -RF /\<close>
  are forbidden by the entry \<open>rm -rf /\<close>. It does not avoid prefix collisions:
  \<open>rmdir x\<close> is forbidden by the entry \<open>rm\<close>, since an entry, of one word or of
  several, forbids every command whose trimmed and lower-cased text starts with the
  lower-cased entry, also where the entry ends inside a longer first token.
\<close>

theorem isForbiddenCommand_raw_prefix:
  "isForbiddenCommand ''rm -rf /'' [''rm -rf /'']
   \<and> isForbiddenCommand ''RM -RF /'' [''rm -rf /'']
   \<and> isForbiddenCommand ''rmdir x'' [''rm'']
   \<and> (f \<in> set fs \<and> prefix (toLowerCase f) (toLowerCase (trim c))
        \<longrightarrow> isForbiddenCommand c fs)"
proof -
  have "isForbiddenCommand ''rm -rf /'' [''rm -rf /'']"
    by (simp add: isForbiddenCommand_def str_eval)
  moreover have "isForbiddenCommand ''RM -RF /'' [''rm -rf /'']"
    by (simp add: isForbiddenCommand_def str_eval)
  moreover have "isForbiddenCommand ''rmdir x'' [''rm'']"
    by (simp add: isForbiddenCommand_def str_eval)
  ultimately show ?thesis
    using isForbiddenCommand_prefixI [of f fs c] by blast
qed

text \<open>The theorem at the entry \<open>rm\<close> and the command \<open>rmdir x\<close>.\<close>

theorem isForbiddenCommand_raw_prefix_witness:
  "''rm'' \<in> set [''rm'']
   \<and> prefix (toLowerCase ''rm'') (toLowerCase (trim ''rmdir x''))
   \<and> isForbiddenCommand ''rmdir x'' [''rm'']"
proof -
  have a: "''rm'' \<in> set [''rm'']" by simp
  have b: "prefix (toLowerCase ''rm'') (toLowerCase (trim ''rmdir x''))"
    by (simp add: str_eval)
  show ?thesis
    using a b isForbiddenCommand_raw_prefix [of "''rm''" "[''rm'']" "''rmdir x''"] by blast
qed

text \<open>The claim as stated fails: the entry \<open>rm\<close> forbids \<open>rmdir x\<close>.\<close>

theorem isForbiddenCommand_prefix_collision:
  "isForbiddenCommand ''rmdir x'' [''rm'']"
  by (simp add: isForbiddenCommand_def str_eval)

section \<open>The command \<open>cd\<close> without an argument (C5)\<close>

text \<open>
  C5. The claim: the command \<open>cd\<close> alone resets the cursor to the allowed root and
  succeeds without a child process. \<open>executeCommand\<close> hands a command to
  \<open>handleCdCommand\<close> only when it starts with \<open>cd\<close> and a space, so \<open>cd\<close> alone
  goes to \<open>runCommand\<close>: with the cursor at \<open>/sandbox/sub\<close>, in a world where no
  program can be started, the result is the spawn failure and the cursor stays.
\<close>

theorem bare_cd_is_spawned:
  "executeCommand brokenWorld
     ((newShellService sandboxConfig)\<lparr>currentDirectory := ''/sandbox/sub''\<rparr>) ''cd'' None
   = (Inr \<lparr> success = False, stdout = [], stderr = ''spawn cd ENOENT'', exitCode = Some 1,
            error = Some ''Failed to execute command'', executedIn = ''/sandbox/sub'' \<rparr>,
      (newShellService sandboxConfig)\<lparr>currentDirectory := ''/sandbox/sub''\<rparr>)"
  by (simp add: executeCommand_def newShellService_def sandboxConfig_def brokenWorld_def
        runCommand_def spawnArguments_def spawnThrows_def hasNul_def addToHistory_def
        isForbiddenCommand_def extractBaseCommand_def safe_eval str_eval)

section \<open>Spawn failure (C6)\<close>

text \<open>
  C6, as amended. When \<open>spawn\<close> accepts its arguments and the child reports a
  spawn error through its \<open>error\<close> event (the program is not found, say), the
  result of \<open>runCommand\<close> has \<open>success = false\<close>, the exit code 1, the message of
  the error as \<open>stderr\<close> and the \<open>error\<close> text \<open>Failed to execute command\<close>. When
  \<open>spawn\<close> itself throws (an empty program name, a NUL character), there is no
  result at all: the call is rejected.
\<close>

theorem runCommand_spawn_failure:
  assumes "spawnArguments cmdline = (cmd, args)"
  shows "(\<not> spawnThrows cmd args (currentDirectory s)
          \<and> spawnChild w cmd args (currentDirectory s) = ErrorEvent message out
          \<longrightarrow> runCommand w s cmdline =
                Inr \<lparr> success = False, stdout = out, stderr = message, exitCode = Some 1,
                      error = Some ''Failed to execute command'',
                      executedIn = currentDirectory s \<rparr>)
         \<and> (spawnThrows cmd args (currentDirectory s)
              \<longrightarrow> runCommand w s cmdline = Inl ERR_INVALID_ARG_VALUE)"
  using assms by (simp add: runCommand_def)

text \<open>
  The theorem at the program \<open>nosuchprogram\<close>, which cannot be started, and at the
  command of white space only, whose program name is empty.
\<close>

theorem runCommand_spawn_failure_witness:
  "spawnArguments ''nosuchprogram'' = (''nosuchprogram'', [])
   \<and> \<not> spawnThrows ''nosuchprogram'' [] (currentDirectory (newShellService sandboxConfig))
   \<and> spawnChild brokenWorld ''nosuchprogram'' [] (currentDirectory (newShellService sandboxConfig))
       = ErrorEvent ''spawn nosuchprogram ENOENT'' []
   \<and> runCommand brokenWorld (newShellService sandboxConfig) ''nosuchprogram'' =
       Inr \<lparr> success = False, stdout = [], stderr = ''spawn nosuchprogram ENOENT'',
             exitCode = Some 1, error = Some ''Failed to execute command'',
             executedIn = ''/sandbox'' \<rparr>
   \<and> spawnArguments [] = ([], [])
   \<and> spawnThrows [] [] (currentDirectory (newShellService sandboxConfig))
   \<and> runCommand brokenWorld (newShellService sandboxConfig) [] = Inl ERR_INVALID_ARG_VALUE"
proof -
  let ?s = "newShellService sandboxConfig"
  have a: "spawnArguments ''nosuchprogram'' = (''nosuchprogram'', [])"
    by (simp add: spawnArguments_def str_eval)
  have b: "\<not> spawnThrows ''nosuchprogram'' [] (currentDirectory ?s)"
    by (simp add: spawnThrows_def hasNul_def newShellService_def sandboxConfig_def)
  have c: "spawnChild brokenWorld ''nosuchprogram'' [] (currentDirectory ?s)
             = ErrorEvent ''spawn nosuchprogram ENOENT'' []"
    by (simp add: brokenWorld_def)
  have d: "currentDirectory ?s = ''/sandbox''"
    by (simp add: newShellService_def sandboxConfig_def)
  have e: "spawnArguments [] = ([], [])"
    by (simp add: spawnArguments_def str_eval)
  have f: "spawnThrows [] [] (currentDirectory ?s)"
    by (simp add: spawnThrows_def)
  show ?thesis
    using a b c e f
      runCommand_spawn_failure [OF a, of ?s brokenWorld "''spawn nosuchprogram ENOENT''" "[]"]
      runCommand_spawn_failure [OF e, of ?s brokenWorld]
    unfolding d by simp
qed

text \<open>The claim as stated fails: on a spawn failure the exit code is present, and is 1.\<close>

theorem spawn_failure_has_exit_code:
  "runCommand brokenWorld (newShellService sandboxConfig) ''nosuchprogram'' =
     Inr \<lparr> success = False, stdout = [], stderr = ''spawn nosuchprogram ENOENT'',
           exitCode = Some 1, error = Some ''Failed to execute command'',
           executedIn = ''/sandbox'' \<rparr>"
  by (simp add: runCommand_def spawnArguments_def spawnThrows_def hasNul_def brokenWorld_def
        newShellService_def sandboxConfig_def str_eval)

section \<open>File operations of \<open>rm\<close> (C7)\<close>

text \<open>
  C7. The claim: a command whose first token is \<open>rm\<close>, with a path argument,
  yields a delete operation on the resolved path. \<open>detectFileOperations\<close> has no
  branch for \<open>rm\<close>: for \<open>rm a.txt\<close> in \<open>/sandbox\<close> it returns no operation.
\<close>

theorem rm_yields_no_file_operation:
  "detectFileOperations ''rm a.txt'' ''/sandbox'' = None"
  by (simp add: detectFileOperations_def str_eval)

section \<open>Facts about paths\<close>

lemma splitSlash_nonempty: "splitSlash s \<noteq> []"
  by (induction s) (auto split: list.splits)

lemma splitSlash_segment:
  "CHR ''/'' \<notin> set x \<Longrightarrow> splitSlash (x @ CHR ''/'' # r) = x # splitSlash r"
  by (induction x) auto

lemma splitSlash_last_segment:
  "CHR ''/'' \<notin> set x \<Longrightarrow> splitSlash x = [x]"
  by (induction x) auto

lemma joinWith_Cons:
  "gs \<noteq> [] \<Longrightarrow> joinWith sep (x # gs) = x @ sep @ joinWith sep gs"
  by (cases gs) auto

lemma joinWith_snoc:
  "gs \<noteq> [] \<Longrightarrow> joinWith sep (gs @ [x]) = joinWith sep gs @ sep @ x"
  by (induction sep gs rule: joinWith.induct) auto

lemma splitSlash_join_append:
  "gs \<noteq> [] \<Longrightarrow> \<forall>g\<in>set gs. CHR ''/'' \<notin> set g \<Longrightarrow>
   splitSlash (joinWith ''/'' gs @ CHR ''/'' # r) = gs @ splitSlash r"
proof (induction gs)
  case Nil
  then show ?case by simp
next
  case (Cons g gs)
  show ?case
  proof (cases "gs = []")
    case True
    with Cons.prems show ?thesis by (simp add: splitSlash_segment)
  next
    case False
    with Cons show ?thesis by (simp add: joinWith_Cons splitSlash_segment)
  qed
qed

lemma splitSlash_absPath_append:
  "gs \<noteq> [] \<Longrightarrow> \<forall>g\<in>set gs. CHR ''/'' \<notin> set g \<Longrightarrow>
   splitSlash (absPath gs @ CHR ''/'' # r) = [] # gs @ splitSlash r"
  by (simp add: absPath_def splitSlash_join_append)

lemma splitSlash_absPath:
  assumes "gs \<noteq> []" "\<forall>g\<in>set gs. CHR ''/'' \<notin> set g"
  shows "splitSlash (absPath gs) = [] # gs"
proof -
  show ?thesis
  proof (cases "butlast gs = []")
    case True
    then have "gs = [last gs]" using assms(1) by (metis append_butlast_last_id append_Nil)
    then obtain g where g: "gs = [g]" by blast
    with assms show ?thesis by (simp add: absPath_def splitSlash_last_segment)
  next
    case False
    have gs: "gs = butlast gs @ [last gs]" using assms(1) by simp
    have "absPath gs = absPath (butlast gs) @ CHR ''/'' # last gs"
      using joinWith_snoc [OF False, of "''/''" "last gs"] gs by (simp add: absPath_def)
    moreover have "\<forall>g\<in>set (butlast gs). CHR ''/'' \<notin> set g"
      using assms(2) by (meson in_set_butlastD)
    moreover have "CHR ''/'' \<notin> set (last gs)" using assms by simp
    ultimately have "splitSlash (absPath gs) = [] # butlast gs @ [last gs]"
      using False by (simp add: splitSlash_absPath_append splitSlash_last_segment)
    with gs show ?thesis by simp
  qed
qed

lemma normalizeSegments_plain:
  "\<forall>g\<in>set gs. plainSegment g \<Longrightarrow>
   normalizeSegments a res (gs @ rest) = normalizeSegments a (rev gs @ res) rest"
  by (induction gs arbitrary: res) (auto simp: plainSegment_def)

lemma normalizeSegments_plain_all:
  "\<forall>g\<in>set gs. plainSegment g \<Longrightarrow> normalizeSegments a [] gs = gs"
  using normalizeSegments_plain [of gs a "[]" "[]"] by simp

lemma plainSegment_no_slash: "plainSegment g \<Longrightarrow> CHR ''/'' \<notin> set g"
  by (simp add: plainSegment_def)

lemma joinWith_nonempty:
  "gs \<noteq> [] \<Longrightarrow> hd gs \<noteq> [] \<Longrightarrow> joinWith sep gs \<noteq> []"
  by (induction sep gs rule: joinWith.induct) auto

lemma joinWith_nonempty_last:
  "gs \<noteq> [] \<Longrightarrow> last gs \<noteq> [] \<Longrightarrow> joinWith sep gs \<noteq> []"
  by (induction sep gs rule: joinWith.induct) auto

lemma last_joinWith:
  "gs \<noteq> [] \<Longrightarrow> last gs \<noteq> [] \<Longrightarrow> last (joinWith sep gs) = last (last gs)"
proof (induction sep gs rule: joinWith.induct)
  case (3 sep x y ys)
  have "joinWith sep (y # ys) \<noteq> []"
    using "3.prems" joinWith_nonempty_last [of "y # ys" sep] by simp
  then have "last (joinWith sep (x # y # ys)) = last (joinWith sep (y # ys))"
    by simp
  with 3 show ?case by simp
qed simp_all

lemma normalize_root: "normalize ''/'' = ''/''"
  by (simp add: normalize_def normalizeString_def isAbsolute_def)

lemma normalize_absPath:
  assumes "\<forall>g\<in>set gs. plainSegment g"
  shows "normalize (absPath gs) = absPath gs"
proof (cases "gs = []")
  case True
  then show ?thesis by (simp add: absPath_def normalize_root)
next
  case False
  have ns: "\<forall>g\<in>set gs. CHR ''/'' \<notin> set g" using assms by (simp add: plainSegment_no_slash)
  have lastne: "last gs \<noteq> []" using assms False by (simp add: plainSegment_def)
  have hdne: "hd gs \<noteq> []" using assms False by (simp add: plainSegment_def)
  have j: "joinWith ''/'' gs \<noteq> []" using joinWith_nonempty [OF False hdne] .
  have "last (absPath gs) = last (last gs)"
    using j last_joinWith [OF False lastne, of "''/''"] by (simp add: absPath_def)
  moreover have "last (last gs) \<in> set (last gs)" using lastne by simp
  moreover have "CHR ''/'' \<notin> set (last gs)" using ns False by simp
  ultimately have trail: "last (absPath gs) \<noteq> CHR ''/''" by metis
  have nstr: "normalizeString (absPath gs) False = joinWith ''/'' gs"
    by (simp add: normalizeString_def splitSlash_absPath [OF False ns]
          normalizeSegments_plain_all [OF assms])
  have abs: "isAbsolute (absPath gs)" by (simp add: isAbsolute_def absPath_def)
  have ne: "absPath gs \<noteq> []" by (simp add: absPath_def)
  show ?thesis
    using trail nstr abs ne j by (simp add: normalize_def Let_def absPath_def)
qed

lemma resolve_from_absPath:
  assumes "\<forall>g\<in>set cur. plainSegment g" "arg \<noteq> []" "\<not> isAbsolute arg"
  shows "resolve pcwd [absPath cur, arg] =
           absPath (normalizeSegments False (rev cur) (splitSlash (arg @ ''/'')))"
proof (cases "cur = []")
  case True
  have "resolveLoop [arg, ''/'', pcwd] [] = (''/'' @ ''/'' @ arg @ ''/'', True)"
    using assms(2,3) by (simp add: isAbsolute_def)
  then show ?thesis
    using True by (simp add: resolve_def absPath_def normalizeString_def)
next
  case False
  have ns: "\<forall>g\<in>set cur. CHR ''/'' \<notin> set g" using assms(1) by (simp add: plainSegment_no_slash)
  have "resolveLoop [arg, absPath cur, pcwd] [] = (absPath cur @ ''/'' @ arg @ ''/'', True)"
    using assms(2,3) by (simp add: isAbsolute_def absPath_def)
  moreover have "normalizeString (absPath cur @ ''/'' @ arg @ ''/'') False =
                 joinWith ''/'' (normalizeSegments False (rev cur) (splitSlash (arg @ ''/'')))"
    using splitSlash_absPath_append [OF False ns, of "arg @ ''/''"]
          normalizeSegments_plain [OF assms(1), of False "[]"]
    by (simp add: normalizeString_def)
  ultimately show ?thesis
    by (simp add: resolve_def absPath_def)
qed

lemma resolve_child:
  assumes "\<forall>g\<in>set cur. plainSegment g" "plainSegment sub"
  shows "resolve pcwd [absPath cur, sub] = absPath (cur @ [sub])"
proof -
  have "sub \<noteq> []" "\<not> isAbsolute sub" "CHR ''/'' \<notin> set sub"
    using assms(2) by (auto simp: plainSegment_def isAbsolute_def split: list.splits)
  then show ?thesis
    using resolve_from_absPath [OF assms(1), of sub pcwd] assms(2)
    by (simp add: splitSlash_segment plainSegment_def)
qed

lemma resolve_parent:
  assumes "\<forall>g\<in>set cur. plainSegment g"
  shows "resolve pcwd [absPath cur, ''..''] = absPath (butlast cur)"
proof (cases "cur = []")
  case True
  then show ?thesis
    using resolve_from_absPath [OF assms, of "''..''" pcwd] by (simp add: isAbsolute_def)
next
  case False
  then have cur: "rev cur = last cur # rev (butlast cur)"
    by (metis append_butlast_last_id rev.simps(2) rev_append rev_rev_ident append_Nil rev_singleton_conv append_Cons)
  have "last cur \<noteq> ''..''" using assms False by (auto simp: plainSegment_def)
  then show ?thesis
    using resolve_from_absPath [OF assms, of "''..''" pcwd] cur
    by (simp add: isAbsolute_def)
qed

section \<open>Facts about the handling of \<open>cd\<close>\<close>

lemma currentDirectory_addToHistory:
  "currentDirectory (addToHistory w s cid cmd result fileOps) = currentDirectory s"
  by (simp add: addToHistory_def Let_def split: option.splits)

lemma shellConfig_addToHistory:
  "shellConfig (addToHistory w s cid cmd result fileOps) = shellConfig s"
  by (simp add: addToHistory_def Let_def split: option.splits)

lemma handleCdCommand_target:
  assumes "2 \<le> length (splitWs cmd)"
  shows "handleCdCommand w s cmd =
           (case validatePath (processCwd w) (joinWith '' '' (tl (splitWs cmd)))
                   (allowedDirectory (shellConfig s)) (currentDirectory s) of
              None \<Rightarrow> (rejected s ''Cannot navigate outside allowed directory'' ''Permission denied'', s)
            | Some v \<Rightarrow>
                if v = [] then (rejected s ''Cannot navigate outside allowed directory'' ''Permission denied'', s)
                else (\<lparr> success = True, stdout = ''Changed directory to: '' @ v, stderr = [],
                        exitCode = Some 0, error = None, executedIn = v \<rparr>,
                      s\<lparr>currentDirectory := v\<rparr>))"
proof -
  have len: "\<not> length (splitWs cmd) < 2" using assms by simp
  show ?thesis
    unfolding handleCdCommand_def Let_def if_not_P [OF len]
    by (simp add: rejected_def split: option.splits)
qed

lemma executeCommand_to_handleCd:
  assumes "enabled (shellConfig s)" "cmdline \<noteq> []"
      and "isSafeCommand (trim cmdline)"
      and "\<not> isForbiddenCommand (trim cmdline) (forbiddenCommands (shellConfig s))"
      and "startsWith (trim cmdline) ''cd ''"
  shows "executeCommand w s cmdline cid =
           (Inr (fst (handleCdCommand w s (trim cmdline))),
            addToHistory w (snd (handleCdCommand w s (trim cmdline))) cid (trim cmdline)
              (fst (handleCdCommand w s (trim cmdline))) None)"
  unfolding executeCommand_def Let_def
  using assms by (simp only: if_True if_False not_True_eq_False split_beta)

lemma executeCommand_cd:
  assumes "enabled (shellConfig s)" "cmdline \<noteq> []"
      and "isSafeCommand (trim cmdline)"
      and "\<not> isForbiddenCommand (trim cmdline) (forbiddenCommands (shellConfig s))"
      and "startsWith (trim cmdline) ''cd ''"
      and "2 \<le> length (splitWs (trim cmdline))"
  shows "fst (executeCommand w s cmdline cid) =
           Inr (case validatePath (processCwd w) (cdTarget cmdline)
                       (allowedDirectory (shellConfig s)) (currentDirectory s) of
                  None \<Rightarrow> rejected s ''Cannot navigate outside allowed directory'' ''Permission denied''
                | Some v \<Rightarrow>
                    if v = [] then rejected s ''Cannot navigate outside allowed directory'' ''Permission denied''
                    else \<lparr> success = True, stdout = ''Changed directory to: '' @ v, stderr = [],
                           exitCode = Some 0, error = None, executedIn = v \<rparr>)"
    and "currentDirectory (snd (executeCommand w s cmdline cid)) =
           (case validatePath (processCwd w) (cdTarget cmdline)
                   (allowedDirectory (shellConfig s)) (currentDirectory s) of
              None \<Rightarrow> currentDirectory s
            | Some v \<Rightarrow> if v = [] then currentDirectory s else v)"
    and "shellConfig (snd (executeCommand w s cmdline cid)) = shellConfig s"
proof -
  note ex = executeCommand_to_handleCd [OF assms(1-5), of w cid]
  note hc = handleCdCommand_target [OF assms(6), of w s]
  show "fst (executeCommand w s cmdline cid) =
           Inr (case validatePath (processCwd w) (cdTarget cmdline)
                       (allowedDirectory (shellConfig s)) (currentDirectory s) of
                  None \<Rightarrow> rejected s ''Cannot navigate outside allowed directory'' ''Permission denied''
                | Some v \<Rightarrow>
                    if v = [] then rejected s ''Cannot navigate outside allowed directory'' ''Permission denied''
                    else \<lparr> success = True, stdout = ''Changed directory to: '' @ v, stderr = [],
                           exitCode = Some 0, error = None, executedIn = v \<rparr>)"
    unfolding ex fst_conv hc cdTarget_def by (simp split: option.splits)
  show "currentDirectory (snd (executeCommand w s cmdline cid)) =
           (case validatePath (processCwd w) (cdTarget cmdline)
                   (allowedDirectory (shellConfig s)) (currentDirectory s) of
              None \<Rightarrow> currentDirectory s
            | Some v \<Rightarrow> if v = [] then currentDirectory s else v)"
    unfolding ex snd_conv currentDirectory_addToHistory hc cdTarget_def by (simp split: option.splits)
  show "shellConfig (snd (executeCommand w s cmdline cid)) = shellConfig s"
    unfolding ex snd_conv shellConfig_addToHistory hc by (simp split: option.splits)
qed

lemma cdTarget_length:
  assumes "cdTarget cmdline \<noteq> []"
  shows "2 \<le> length (splitWs (trim cmdline))"
proof -
  have "tl (splitWs (trim cmdline)) \<noteq> []"
    using assms by (auto simp: cdTarget_def)
  then show ?thesis
    by (cases "splitWs (trim cmdline)") (auto simp: Suc_le_eq)
qed

lemma cd_parent_checks:
  "''cd ..'' \<noteq> []" "isSafeCommand (trim ''cd ..'')" "startsWith (trim ''cd ..'') ''cd ''"
  "2 \<le> length (splitWs (trim ''cd ..''))" "cdTarget ''cd ..'' = ''..''" "trim ''cd ..'' = ''cd ..''"
  by (simp_all add: str_eval safe_eval cdTarget_def)

lemma absPath_snoc:
  "gs \<noteq> [] \<Longrightarrow> absPath (gs @ [x]) = absPath gs @ ''/'' @ x"
  by (simp add: absPath_def joinWith_snoc)

lemma absPath_prefix_snoc: "prefix (absPath gs) (absPath (gs @ [x]))"
  by (cases "gs = []") (simp_all add: absPath_snoc, simp add: absPath_def)

lemma absPath_butlast_shorter:
  assumes "gs \<noteq> []" "last gs \<noteq> []"
  shows "length (absPath (butlast gs)) < length (absPath gs)"
proof (cases "butlast gs = []")
  case True
  then have "gs = [last gs]" using assms(1) by (metis append_butlast_last_id append_Nil)
  then have "absPath gs = ''/'' @ last gs" by (metis absPath_def joinWith.simps(2))
  with True assms(2) show ?thesis by (simp add: absPath_def)
next
  case False
  have "absPath gs = absPath (butlast gs @ [last gs])" using assms(1) by simp
  also have "\<dots> = absPath (butlast gs) @ ''/'' @ last gs" using False by (rule absPath_snoc)
  finally show ?thesis by simp
qed

lemma validatePath_child:
  assumes "\<forall>g\<in>set segs. plainSegment g" "plainSegment sub"
  shows "validatePath pcwd sub (absPath segs) (absPath segs) = Some (absPath (segs @ [sub]))"
proof -
  have plain: "\<forall>g\<in>set (segs @ [sub]). plainSegment g" using assms by simp
  have "startsWith (absPath (segs @ [sub])) (absPath segs)"
    by (simp add: startsWith_prefix absPath_prefix_snoc)
  then show ?thesis
    using resolve_child [OF assms, of pcwd] normalize_absPath [OF plain]
          normalize_absPath [OF assms(1)]
    by (simp add: validatePath_def)
qed

lemma validatePath_back:
  assumes "\<forall>g\<in>set segs. plainSegment g" "plainSegment sub"
  shows "validatePath pcwd ''..'' (absPath segs) (absPath (segs @ [sub])) = Some (absPath segs)"
proof -
  have plain: "\<forall>g\<in>set (segs @ [sub]). plainSegment g" using assms by simp
  have "resolve pcwd [absPath (segs @ [sub]), ''..''] = absPath segs"
    using resolve_parent [OF plain, of pcwd] by simp
  then show ?thesis
    using normalize_absPath [OF assms(1)]
    by (simp add: validatePath_def startsWith_prefix)
qed

lemma validatePath_parent_of_root:
  assumes "segs \<noteq> []" "\<forall>g\<in>set segs. plainSegment g"
  shows "validatePath pcwd ''..'' (absPath segs) (absPath segs) = None"
proof -
  have r: "resolve pcwd [absPath segs, ''..''] = absPath (butlast segs)"
    using resolve_parent [OF assms(2)] .
  have "\<forall>g\<in>set (butlast segs). plainSegment g"
    using assms(2) by (meson in_set_butlastD)
  then have n: "normalize (absPath (butlast segs)) = absPath (butlast segs)"
    by (rule normalize_absPath)
  have "last segs \<noteq> []" using assms by (simp add: plainSegment_def)
  then have "length (absPath (butlast segs)) < length (absPath segs)"
    using absPath_butlast_shorter [OF assms(1)] by simp
  then have "\<not> prefix (absPath segs) (absPath (butlast segs))"
    using prefix_length_le by fastforce
  then show ?thesis
    using r n normalize_absPath [OF assms(2)] by (simp add: validatePath_def startsWith_prefix)
qed

lemma validatePath_parent_of_slash:
  "validatePath pcwd ''..'' (absPath []) (absPath []) = Some (absPath [])"
proof -
  have "resolve pcwd [absPath [], ''..''] = absPath []"
    using resolve_parent [of "[]" pcwd] by simp
  then show ?thesis
    using normalize_absPath [of "[]"] by (simp add: validatePath_def startsWith_prefix)
qed

lemma absPath_nonempty: "absPath gs \<noteq> []"
  by (simp add: absPath_def)

lemma pathSegments_absPath:
  assumes "\<forall>g\<in>set gs. plainSegment g"
  shows "pathSegments (absPath gs) = gs"
proof (cases "gs = []")
  case True
  then show ?thesis by (simp add: pathSegments_def absPath_def)
next
  case False
  have "\<forall>g\<in>set gs. CHR ''/'' \<notin> set g" using assms by (simp add: plainSegment_no_slash)
  from splitSlash_absPath [OF False this]
  have "pathSegments (absPath gs) = filter (\<lambda>g. g \<noteq> []) gs" by (simp add: pathSegments_def)
  also have "\<dots> = gs" using assms by (simp add: plainSegment_def filter_id_conv)
  finally show ?thesis .
qed

section \<open>The round trip of the cursor (C8)\<close>

text \<open>
  C8, as amended. Let the allowed root be a normalized absolute path and the cursor
  be at the root. Take a command that goes to the handling of \<open>cd\<close> (it passes the
  classifier and the deny-list, and its trimmed text starts with \<open>cd\<close> and a space)
  and names a plain directory, which may hold white space; let the deny-list not
  forbid \<open>cd ..\<close>. Then the command moves the cursor to that child of the root,
  which is within the root, and \<open>cd ..\<close> after it succeeds and brings the cursor
  back to the root. Issued at the root, \<open>cd ..\<close> leaves the cursor at the root; it
  returns the failure with exit code 1 and the error \<open>Permission denied\<close>, unless
  the root is \<open>/\<close>, where it succeeds.
\<close>

theorem cd_round_trip:
  assumes "enabled (shellConfig s)"
      and "allowedDirectory (shellConfig s) = absPath segs"
      and "currentDirectory s = absPath segs"
      and "\<forall>g\<in>set segs. plainSegment g"
      and "cmdline \<noteq> []" and "startsWith (trim cmdline) ''cd ''"
      and "plainSegment (cdTarget cmdline)"
      and "isSafeCommand (trim cmdline)"
      and "\<not> isForbiddenCommand (trim cmdline) (forbiddenCommands (shellConfig s))"
      and "\<not> isForbiddenCommand ''cd ..'' (forbiddenCommands (shellConfig s))"
  shows "currentDirectory (snd (executeCommand w1 s cmdline cid1)) = absPath (segs @ [cdTarget cmdline])
         \<and> withinAllowed (absPath segs) (absPath (segs @ [cdTarget cmdline]))
         \<and> currentDirectory (snd (executeCommand w2 (snd (executeCommand w1 s cmdline cid1))
                                      ''cd ..'' cid2)) = absPath segs
         \<and> fst (executeCommand w2 (snd (executeCommand w1 s cmdline cid1)) ''cd ..'' cid2) =
             Inr \<lparr> success = True, stdout = ''Changed directory to: '' @ absPath segs,
                   stderr = [], exitCode = Some 0, error = None, executedIn = absPath segs \<rparr>
         \<and> currentDirectory (snd (executeCommand w s ''cd ..'' cid)) = absPath segs
         \<and> (segs \<noteq> [] \<longrightarrow>
               fst (executeCommand w s ''cd ..'' cid) =
                 Inr \<lparr> success = False, stdout = [],
                       stderr = ''Cannot navigate outside allowed directory'',
                       exitCode = Some 1, error = Some ''Permission denied'',
                       executedIn = absPath segs \<rparr>)
         \<and> (segs = [] \<longrightarrow>
               fst (executeCommand w s ''cd ..'' cid) =
                 Inr \<lparr> success = True, stdout = ''Changed directory to: /'',
                       stderr = [], exitCode = Some 0, error = None, executedIn = ''/'' \<rparr>)"
proof -
  let ?t = "cdTarget cmdline"
  let ?s1 = "snd (executeCommand w1 s cmdline cid1)"
  have tne: "?t \<noteq> []" using assms(7) by (simp add: plainSegment_def)
  note step1 = executeCommand_cd [OF assms(1,5,8,9,6) cdTarget_length [OF tne], of w1 cid1]
  have vp1: "validatePath (processCwd w1) ?t (allowedDirectory (shellConfig s)) (currentDirectory s)
               = Some (absPath (segs @ [?t]))"
    using validatePath_child [OF assms(4,7)] assms(2,3) by simp
  have cur1: "currentDirectory ?s1 = absPath (segs @ [?t])"
    using step1(2) vp1 absPath_nonempty by simp
  have cfg1: "shellConfig ?s1 = shellConfig s" using step1(3) .
  have within: "withinAllowed (absPath segs) (absPath (segs @ [?t]))"
    using pathSegments_absPath [OF assms(4)] pathSegments_absPath [of "segs @ [?t]"] assms(4,7)
    by (simp add: withinAllowed_def strict_prefix_def)
  have en1: "enabled (shellConfig ?s1)" using cfg1 assms(1) by simp
  have nf1: "\<not> isForbiddenCommand (trim ''cd ..'') (forbiddenCommands (shellConfig ?s1))"
    using cfg1 assms(10) cd_parent_checks(6) by simp
  note step2 = executeCommand_cd [OF en1 cd_parent_checks(1,2) nf1 cd_parent_checks(3,4), of w2 cid2]
  have vp2: "validatePath (processCwd w2) (cdTarget ''cd ..'') (allowedDirectory (shellConfig ?s1))
               (currentDirectory ?s1) = Some (absPath segs)"
    using validatePath_back [OF assms(4,7)] cfg1 cur1 assms(2) cd_parent_checks(5) by simp
  have cur2: "currentDirectory (snd (executeCommand w2 ?s1 ''cd ..'' cid2)) = absPath segs"
    using step2(2) vp2 absPath_nonempty by simp
  have ok2: "fst (executeCommand w2 ?s1 ''cd ..'' cid2) =
               Inr \<lparr> success = True, stdout = ''Changed directory to: '' @ absPath segs,
                     stderr = [], exitCode = Some 0, error = None, executedIn = absPath segs \<rparr>"
    using step2(1) vp2 absPath_nonempty by simp
  have nf0: "\<not> isForbiddenCommand (trim ''cd ..'') (forbiddenCommands (shellConfig s))"
    using assms(10) cd_parent_checks(6) by simp
  note step0 = executeCommand_cd [OF assms(1) cd_parent_checks(1,2) nf0 cd_parent_checks(3,4), of w cid]
  have cur0: "currentDirectory (snd (executeCommand w s ''cd ..'' cid)) = absPath segs"
  proof (cases "segs = []")
    case True
    then show ?thesis
      using step0(2) validatePath_parent_of_slash assms(2,3) cd_parent_checks(5) absPath_nonempty
      by simp
  next
    case False
    then show ?thesis
      using step0(2) validatePath_parent_of_root [OF False assms(4)] assms(2,3) cd_parent_checks(5)
      by simp
  qed
  have fail0: "segs \<noteq> [] \<longrightarrow>
               fst (executeCommand w s ''cd ..'' cid) =
                 Inr \<lparr> success = False, stdout = [],
                       stderr = ''Cannot navigate outside allowed directory'',
                       exitCode = Some 1, error = Some ''Permission denied'',
                       executedIn = absPath segs \<rparr>"
  proof
    assume ne: "segs \<noteq> []"
    have "validatePath (processCwd w) (cdTarget ''cd ..'') (allowedDirectory (shellConfig s))
            (currentDirectory s) = None"
      using validatePath_parent_of_root [OF ne assms(4)] assms(2,3) cd_parent_checks(5) by simp
    then show "fst (executeCommand w s ''cd ..'' cid) =
                 Inr \<lparr> success = False, stdout = [],
                       stderr = ''Cannot navigate outside allowed directory'',
                       exitCode = Some 1, error = Some ''Permission denied'',
                       executedIn = absPath segs \<rparr>"
      using step0(1) assms(3) by (simp add: rejected_def)
  qed
  have ok0: "segs = [] \<longrightarrow>
               fst (executeCommand w s ''cd ..'' cid) =
                 Inr \<lparr> success = True, stdout = ''Changed directory to: /'',
                       stderr = [], exitCode = Some 0, error = None, executedIn = ''/'' \<rparr>"
  proof
    assume e: "segs = []"
    have "validatePath (processCwd w) (cdTarget ''cd ..'') (allowedDirectory (shellConfig s))
            (currentDirectory s) = Some ''/''"
      using validatePath_parent_of_slash assms(2,3) cd_parent_checks(5) e by (simp add: absPath_def)
    then show "fst (executeCommand w s ''cd ..'' cid) =
                 Inr \<lparr> success = True, stdout = ''Changed directory to: /'',
                       stderr = [], exitCode = Some 0, error = None, executedIn = ''/'' \<rparr>"
      using step0(1) by simp
  qed
  from cur1 within cur2 ok2 cur0 fail0 ok0 show ?thesis by blast
qed

text \<open>
  The theorem in a fresh service with the root \<open>/sandbox\<close> and the command
  \<open>cd my dir\<close>, and in a fresh service with the root \<open>/\<close> and the command \<open>cd a\<close>.
\<close>

theorem cd_round_trip_witness:
  "enabled (shellConfig (newShellService sandboxConfig))
   \<and> allowedDirectory (shellConfig (newShellService sandboxConfig)) = absPath [''sandbox'']
   \<and> currentDirectory (newShellService sandboxConfig) = absPath [''sandbox'']
   \<and> plainSegment ''sandbox''
   \<and> startsWith (trim ''cd my dir'') ''cd ''
   \<and> cdTarget ''cd my dir'' = ''my dir'' \<and> plainSegment ''my dir''
   \<and> isSafeCommand (trim ''cd my dir'')
   \<and> \<not> isForbiddenCommand (trim ''cd my dir'') (forbiddenCommands (shellConfig (newShellService sandboxConfig)))
   \<and> \<not> isForbiddenCommand ''cd ..'' (forbiddenCommands (shellConfig (newShellService sandboxConfig)))
   \<and> currentDirectory (snd (executeCommand quietWorld (newShellService sandboxConfig)
                                ''cd my dir'' (Some ''s1''))) = ''/sandbox/my dir''
   \<and> currentDirectory
        (snd (executeCommand quietWorld
                (snd (executeCommand quietWorld (newShellService sandboxConfig)
                        ''cd my dir'' (Some ''s1'')))
                ''cd ..'' (Some ''s1''))) = ''/sandbox''
   \<and> currentDirectory (snd (executeCommand quietWorld (newShellService sandboxConfig)
                                ''cd ..'' (Some ''s1''))) = ''/sandbox''
   \<and> fst (executeCommand quietWorld (newShellService sandboxConfig) ''cd ..'' (Some ''s1'')) =
       Inr \<lparr> success = False, stdout = [],
             stderr = ''Cannot navigate outside allowed directory'',
             exitCode = Some 1, error = Some ''Permission denied'',
             executedIn = ''/sandbox'' \<rparr>
   \<and> allowedDirectory (shellConfig (newShellService rootConfig)) = absPath []
   \<and> plainSegment (cdTarget ''cd a'')
   \<and> fst (executeCommand quietWorld (newShellService rootConfig) ''cd ..'' (Some ''s1'')) =
       Inr \<lparr> success = True, stdout = ''Changed directory to: /'',
             stderr = [], exitCode = Some 0, error = None, executedIn = ''/'' \<rparr>"
proof -
  let ?s = "newShellService sandboxConfig"
  let ?r = "newShellService rootConfig"
  have h1: "enabled (shellConfig ?s)"
    by (simp add: newShellService_def sandboxConfig_def)
  have h2: "allowedDirectory (shellConfig ?s) = absPath [''sandbox'']"
    by (simp add: newShellService_def sandboxConfig_def absPath_def)
  have h3: "currentDirectory ?s = absPath [''sandbox'']"
    by (simp add: newShellService_def sandboxConfig_def absPath_def)
  have h4: "\<forall>g\<in>set [''sandbox'']. plainSegment g" by (simp add: plainSegment_def)
  have h5: "''cd my dir'' \<noteq> []" by simp
  have h6: "startsWith (trim ''cd my dir'') ''cd ''" by (simp add: str_eval)
  have t: "cdTarget ''cd my dir'' = ''my dir''" by (simp add: cdTarget_def str_eval)
  have h7: "plainSegment (cdTarget ''cd my dir'')" unfolding t by (simp add: plainSegment_def)
  have h8: "isSafeCommand (trim ''cd my dir'')" by (simp add: safe_eval str_eval)
  have h9: "\<not> isForbiddenCommand (trim ''cd my dir'') (forbiddenCommands (shellConfig ?s))"
    by (simp add: isForbiddenCommand_def newShellService_def sandboxConfig_def str_eval)
  have h10: "\<not> isForbiddenCommand ''cd ..'' (forbiddenCommands (shellConfig ?s))"
    by (simp add: isForbiddenCommand_def newShellService_def sandboxConfig_def str_eval)
  have p1: "absPath [''sandbox''] = ''/sandbox''" by (simp add: absPath_def)
  have p2: "absPath ([''sandbox''] @ [''my dir'']) = ''/sandbox/my dir''" by (simp add: absPath_def)
  note rt = cd_round_trip [OF h1 h2 h3 h4 h5 h6 h7 h8 h9 h10,
              of quietWorld "Some ''s1''" quietWorld "Some ''s1''" quietWorld "Some ''s1''"]
  have r1: "enabled (shellConfig ?r)"
    by (simp add: newShellService_def rootConfig_def)
  have r2: "allowedDirectory (shellConfig ?r) = absPath []"
    by (simp add: newShellService_def rootConfig_def absPath_def)
  have r3: "currentDirectory ?r = absPath []"
    by (simp add: newShellService_def rootConfig_def absPath_def)
  have r4: "\<forall>g\<in>set []. plainSegment g" by simp
  have r5: "''cd a'' \<noteq> []" by simp
  have r6: "startsWith (trim ''cd a'') ''cd ''" by (simp add: str_eval)
  have r7: "plainSegment (cdTarget ''cd a'')"
    by (simp add: cdTarget_def str_eval plainSegment_def)
  have r8: "isSafeCommand (trim ''cd a'')" by (simp add: safe_eval str_eval)
  have r9: "\<not> isForbiddenCommand (trim ''cd a'') (forbiddenCommands (shellConfig ?r))"
    by (simp add: isForbiddenCommand_def newShellService_def rootConfig_def str_eval)
  have r10: "\<not> isForbiddenCommand ''cd ..'' (forbiddenCommands (shellConfig ?r))"
    by (simp add: isForbiddenCommand_def newShellService_def rootConfig_def str_eval)
  note rr = cd_round_trip [OF r1 r2 r3 r4 r5 r6 r7 r8 r9 r10,
              of quietWorld "Some ''s1''" quietWorld "Some ''s1''" quietWorld "Some ''s1''"]
  have plain: "plainSegment ''sandbox''" "plainSegment ''my dir''"
    by (simp_all add: plainSegment_def)
  from rt rr h1 h2 h3 h6 t h8 h9 h10 r2 r7 plain show ?thesis
    unfolding p1 p2 t by simp
qed

text \<open>
  The claim as stated fails: at the root \<open>/sandbox\<close> the command \<open>cd ..\<close> returns
  an error result.
\<close>

theorem cd_parent_at_root_is_an_error:
  "fst (executeCommand quietWorld (newShellService sandboxConfig) ''cd ..'' (Some ''s1'')) =
     Inr \<lparr> success = False, stdout = [],
           stderr = ''Cannot navigate outside allowed directory'',
           exitCode = Some 1, error = Some ''Permission denied'',
           executedIn = ''/sandbox'' \<rparr>"
  by (simp add: executeCommand_def newShellService_def sandboxConfig_def quietWorld_def
        handleCdCommand_def addToHistory_def isForbiddenCommand_def extractBaseCommand_def
        safe_eval str_eval path_eval Let_def)

section \<open>The pipe limit of the classifier (C9)\<close>

lemma sublist_filter_length:
  "sublist xs ys \<Longrightarrow> length (filter P xs) \<le> length (filter P ys)"
  by (auto simp: sublist_def)

lemma hasSpaced_pipe_pipe_count:
  assumes "hasSpaced (CHR ''|'') ''|'' c"
  shows "2 \<le> pipeCount c"
proof -
  from assms obtain ws where "sublist (CHR ''|'' # ws @ ''|'') c"
    by (auto simp: hasSpaced_def)
  from sublist_filter_length [OF this, of "\<lambda>c. c = CHR ''|''"]
  show ?thesis by (simp add: pipeCount_def)
qed

lemma isSafeCommand_iff:
  "isSafeCommand c \<longleftrightarrow>
     \<not> hasTraversal c \<and> \<not> hasDollarParen c \<and> \<not> hasBacktickPair c
     \<and> \<not> hasSpaced (CHR ''|'') ''sudo'' c \<and> \<not> hasSpaced (CHR '';'') ''sudo'' c
     \<and> \<not> hasSpaced (CHR ''&'') ''&'' c \<and> \<not> hasSpaced (CHR ''|'') ''|'' c
     \<and> pipeCount c \<le> 1"
proof -
  have sp: "\<And>x y. y \<noteq> [] \<Longrightarrow> \<not> isSpace (hd y) \<Longrightarrow> reCharWsStr x y c = hasSpaced x y c"
    by (rule reCharWsStr_hasSpaced)
  have "reCharWsStr (CHR ''|'') ''sudo'' c = hasSpaced (CHR ''|'') ''sudo'' c"
       "reCharWsStr (CHR '';'') ''sudo'' c = hasSpaced (CHR '';'') ''sudo'' c"
       "reCharWsStr (CHR ''&'') ''&'' c = hasSpaced (CHR ''&'') ''&'' c"
       "reCharWsStr (CHR ''|'') ''|'' c = hasSpaced (CHR ''|'') ''|'' c"
    by (simp_all add: sp isSpace_def)
  then show ?thesis
    by (auto simp: isSafeCommand_def pathTraversalPatterns_def dangerousPatterns_def
          hasTraversal_def hasDollarParen_def includesStr_sublist reBacktick_hasBacktickPair)
qed


text \<open>
  C9, as amended. A command with two or more \<open>|\<close> characters is not safe. A
  command with exactly one \<open>|\<close> is safe when it has none of the other patterns as
  the classifier has them: no traversal (two dots next to a slash or a backslash, on
  either side), no \<open>$(\<close>, no pair of backticks without a single quote between them
  (inside a single-quoted span or not), no \<open>|\<close> or \<open>;\<close> followed, after any white
  space, by \<open>sudo\<close>, and no two \<open>&\<close> with nothing or only white space between
  them. The pattern of two \<open>|\<close> cannot occur with one pipe.
\<close>

theorem isSafeCommand_pipe_limit:
  "(2 \<le> pipeCount c \<longrightarrow> \<not> isSafeCommand c)
   \<and> (pipeCount c = 1 \<and> \<not> hasTraversal c \<and> \<not> hasDollarParen c \<and> \<not> hasBacktickPair c
        \<and> \<not> hasSpaced (CHR ''|'') ''sudo'' c \<and> \<not> hasSpaced (CHR '';'') ''sudo'' c
        \<and> \<not> hasSpaced (CHR ''&'') ''&'' c
       \<longrightarrow> isSafeCommand c)"
proof -
  have "pipeCount c = 1 \<Longrightarrow> \<not> hasSpaced (CHR ''|'') ''|'' c"
    using hasSpaced_pipe_pipe_count [of c] by auto
  then show ?thesis
    unfolding isSafeCommand_iff by auto
qed


text \<open>The theorem at \<open>ls | grep x | wc -l\<close> and at \<open>ls | grep x\<close>.\<close>

theorem isSafeCommand_pipe_limit_witness:
  "2 \<le> pipeCount ''ls | grep x | wc -l'' \<and> \<not> isSafeCommand ''ls | grep x | wc -l''
   \<and> pipeCount ''ls | grep x'' = 1 \<and> \<not> hasTraversal ''ls | grep x''
   \<and> \<not> hasDollarParen ''ls | grep x'' \<and> \<not> hasBacktickPair ''ls | grep x''
   \<and> \<not> hasSpaced (CHR ''|'') ''sudo'' ''ls | grep x''
   \<and> \<not> hasSpaced (CHR '';'') ''sudo'' ''ls | grep x''
   \<and> \<not> hasSpaced (CHR ''&'') ''&'' ''ls | grep x''
   \<and> isSafeCommand ''ls | grep x''"
proof -
  have two: "2 \<le> pipeCount ''ls | grep x | wc -l''"
    by (simp add: pipeCount_def)
  have one: "pipeCount ''ls | grep x'' = 1"
    by (simp add: pipeCount_def)
  have t: "\<not> hasTraversal ''ls | grep x''"
    by (simp add: hasTraversal_def includesStr_sublist [symmetric])
  have d: "\<not> hasDollarParen ''ls | grep x''"
    by (simp add: hasDollarParen_def includesStr_sublist [symmetric])
  have b: "\<not> hasBacktickPair ''ls | grep x''"
    by (simp add: reBacktick_hasBacktickPair [symmetric])
  have p: "\<not> hasSpaced (CHR ''|'') ''sudo'' ''ls | grep x''"
    by (simp add: reCharWsStr_hasSpaced [symmetric] isSpace_def)
  have s: "\<not> hasSpaced (CHR '';'') ''sudo'' ''ls | grep x''"
    by (simp add: reCharWsStr_hasSpaced [symmetric] isSpace_def)
  have a: "\<not> hasSpaced (CHR ''&'') ''&'' ''ls | grep x''"
    by (simp add: reCharWsStr_hasSpaced [symmetric] isSpace_def)
  show ?thesis
    using two one t d b p s a
      isSafeCommand_pipe_limit [of "''ls | grep x | wc -l''"]
      isSafeCommand_pipe_limit [of "''ls | grep x''"]
    by blast
qed

text \<open>
  The claim as stated fails: the command \<open>ls | cat & & x\<close> has exactly one \<open>|\<close>,
  no traversal, no \<open>$(\<close>, no backtick, no \<open>sudo\<close>, no \<open>&&\<close> and no \<open>||\<close>, and
  the classifier rejects it, for its two \<open>&\<close> with a space between them.
\<close>

theorem one_pipe_spaced_ampersands_rejected:
  "pipeCount ''ls | cat & & x'' = 1
   \<and> \<not> hasTraversal ''ls | cat & & x''
   \<and> \<not> sublist ''$('' ''ls | cat & & x''
   \<and> CHR 0x60 \<notin> set ''ls | cat & & x''
   \<and> \<not> sublist ''sudo'' ''ls | cat & & x''
   \<and> \<not> sublist ''&&'' ''ls | cat & & x''
   \<and> \<not> sublist ''||'' ''ls | cat & & x''
   \<and> \<not> isSafeCommand ''ls | cat & & x''"
  by (simp add: hasTraversal_def includesStr_sublist [symmetric] safe_eval isSpace_def)

section \<open>The bound of the history (C10)\<close>

lemma addToHistory_other:
  "other \<noteq> cid \<Longrightarrow>
   commandHistory (addToHistory w s (Some cid) cmd result fileOps) other = commandHistory s other"
  by (simp add: addToHistory_def Let_def)

lemma addToHistory_same:
  "cid \<noteq> [] \<Longrightarrow>
   getCommandHistory (addToHistory w s (Some cid) cmd result fileOps) cid None =
     (let pushed = getCommandHistory s cid None @ [makeHistoryEntry w cmd result fileOps]
      in if length pushed > maxHistoryPerConversation then tl pushed else pushed)"
  by (simp add: addToHistory_def getCommandHistory_def Let_def)

lemma push_then_trim:
  fixes old :: "'a list"
  assumes "length old \<le> n"
  shows "length (if length (old @ [e]) > n then tl (old @ [e]) else old @ [e]) \<le> n"
    and "drop (length ((if length (old @ [e]) > n then tl (old @ [e]) else old @ [e]) @ es) - n)
              ((if length (old @ [e]) > n then tl (old @ [e]) else old @ [e]) @ es)
         = drop (length (old @ e # es) - n) (old @ e # es)"
proof -
  show "length (if length (old @ [e]) > n then tl (old @ [e]) else old @ [e]) \<le> n"
    using assms by auto
  show "drop (length ((if length (old @ [e]) > n then tl (old @ [e]) else old @ [e]) @ es) - n)
              ((if length (old @ [e]) > n then tl (old @ [e]) else old @ [e]) @ es)
         = drop (length (old @ e # es) - n) (old @ e # es)"
  proof (cases "length (old @ [e]) > n")
    case False
    then show ?thesis by simp
  next
    case True
    with assms have len: "length old = n" by simp
    define X where "X = old @ e # es"
    define K where "K = tl (old @ [e]) @ es"
    have K: "K = drop 1 X"
      unfolding K_def X_def by (cases old) (simp_all add: drop_Suc)
    have lenK: "length K = n + length es"
      unfolding K_def using len by simp
    have lenX: "length X = Suc (n + length es)"
      unfolding X_def using len by simp
    have "drop (length K - n) K = drop (length es) (drop 1 X)"
      using K lenK by simp
    also have "\<dots> = drop (length X - n) X"
      by (simp add: lenX)
    finally have "drop (length K - n) K = drop (length X - n) X" .
    then show ?thesis
      unfolding if_P [OF True] K_def X_def .
  qed
qed

lemma addAllToHistory_other:
  "other \<noteq> cid \<Longrightarrow>
   commandHistory (addAllToHistory s (Some cid) calls) other = commandHistory s other"
  by (induction s "Some cid" calls rule: addAllToHistory.induct) (simp_all add: addToHistory_other)

lemma addAllToHistory_same:
  assumes "cid \<noteq> []"
  shows "length (getCommandHistory s cid None) \<le> maxHistoryPerConversation \<Longrightarrow>
         getCommandHistory (addAllToHistory s (Some cid) calls) cid None =
           drop (length (getCommandHistory s cid None @ map entryOfCall calls) - maxHistoryPerConversation)
                (getCommandHistory s cid None @ map entryOfCall calls)"
proof (induction calls arbitrary: s)
  case Nil
  then show ?case by simp
next
  case (Cons call calls)
  obtain w cmd result fileOps where call: "call = (w, cmd, result, fileOps)"
    by (cases call) auto
  let ?old = "getCommandHistory s cid None"
  let ?e = "makeHistoryEntry w cmd result fileOps"
  let ?s' = "addToHistory w s (Some cid) cmd result fileOps"
  have kept: "getCommandHistory ?s' cid None =
                (if length (?old @ [?e]) > maxHistoryPerConversation then tl (?old @ [?e]) else ?old @ [?e])"
    using addToHistory_same [OF assms, of w s cmd result fileOps] by (simp add: Let_def)
  note trim1 = push_then_trim(1) [OF Cons.prems, where e = ?e]
  note trim2 = push_then_trim(2) [OF Cons.prems, where e = ?e and es = "map entryOfCall calls"]
  have "getCommandHistory (addAllToHistory ?s' (Some cid) calls) cid None =
          drop (length (getCommandHistory ?s' cid None @ map entryOfCall calls) - maxHistoryPerConversation)
               (getCommandHistory ?s' cid None @ map entryOfCall calls)"
    using Cons.IH [of ?s'] trim1 kept by simp
  also have "\<dots> = drop (length (?old @ ?e # map entryOfCall calls) - maxHistoryPerConversation)
                      (?old @ ?e # map entryOfCall calls)"
    using trim2 kept by simp
  finally have step: "getCommandHistory (addAllToHistory ?s' (Some cid) calls) cid None =
                        drop (length (?old @ ?e # map entryOfCall calls) - maxHistoryPerConversation)
                             (?old @ ?e # map entryOfCall calls)" .
  have e: "entryOfCall call = ?e"
    by (simp add: call entryOfCall_def)
  show ?case
    unfolding list.map e using step by (simp add: call)
qed


text \<open>
  C10. Take a conversation with a non-empty identifier whose history holds at most
  100 entries, and any run of calls of \<open>addToHistory\<close> for it. Afterwards its
  history is the last 100 entries of the old history followed by the new entries in
  the order of the calls, so it never holds more than 100; from no history, 110
  calls leave exactly 100 entries, the first 10 dropped; and the history of every
  other conversation is as before.
\<close>

theorem history_keeps_most_recent_100:
  assumes "cid \<noteq> []"
      and "length (getCommandHistory s cid None) \<le> maxHistoryPerConversation"
  shows "getCommandHistory (addAllToHistory s (Some cid) calls) cid None =
           drop (length (getCommandHistory s cid None @ map entryOfCall calls) - 100)
                (getCommandHistory s cid None @ map entryOfCall calls)
         \<and> length (getCommandHistory (addAllToHistory s (Some cid) calls) cid None) \<le> 100
         \<and> (commandHistory s cid = None \<and> length calls = 110 \<longrightarrow>
              getCommandHistory (addAllToHistory s (Some cid) calls) cid None
                = drop 10 (map entryOfCall calls)
              \<and> length (getCommandHistory (addAllToHistory s (Some cid) calls) cid None) = 100)
         \<and> (\<forall>other. other \<noteq> cid \<longrightarrow>
              commandHistory (addAllToHistory s (Some cid) calls) other = commandHistory s other)"
proof -
  let ?new = "getCommandHistory (addAllToHistory s (Some cid) calls) cid None"
  let ?all = "getCommandHistory s cid None @ map entryOfCall calls"
  have eq: "?new = drop (length ?all - 100) ?all"
    using addAllToHistory_same [OF assms] by (simp add: maxHistoryPerConversation_def)
  have bound: "length ?new \<le> 100"
    unfolding eq by simp
  have fresh: "commandHistory s cid = None \<and> length calls = 110 \<longrightarrow>
               ?new = drop 10 (map entryOfCall calls) \<and> length ?new = 100"
    unfolding eq by (auto simp: getCommandHistory_def)
  have others: "\<forall>other. other \<noteq> cid \<longrightarrow>
                 commandHistory (addAllToHistory s (Some cid) calls) other = commandHistory s other"
    by (simp add: addAllToHistory_other)
  from eq bound fresh others show ?thesis by blast
qed


text \<open>The theorem for 110 calls in the conversation \<open>s1\<close> of a fresh service.\<close>

theorem history_keeps_most_recent_100_witness:
  "''s1'' \<noteq> []
   \<and> length (getCommandHistory (newShellService sandboxConfig) ''s1'' None) \<le> maxHistoryPerConversation
   \<and> length (replicate 110 (quietWorld, ''ls'', okResult, None)) = 110
   \<and> length (getCommandHistory
               (addAllToHistory (newShellService sandboxConfig) (Some ''s1'')
                  (replicate 110 (quietWorld, ''ls'', okResult, None)))
               ''s1'' None) = 100
   \<and> commandHistory
        (addAllToHistory (newShellService sandboxConfig) (Some ''s1'')
           (replicate 110 (quietWorld, ''ls'', okResult, None)))
        ''s2'' = None"
proof -
  have a: "''s1'' \<noteq> []" by simp
  have b: "length (getCommandHistory (newShellService sandboxConfig) ''s1'' None) \<le> maxHistoryPerConversation"
    by (simp add: getCommandHistory_def newShellService_def)
  have c: "commandHistory (newShellService sandboxConfig) ''s1'' = None"
    by (simp add: newShellService_def)
  have d: "commandHistory (newShellService sandboxConfig) ''s2'' = None"
    by (simp add: newShellService_def)
  have e: "''s2'' \<noteq> ''s1''" by simp
  show ?thesis
    using a b c d e history_keeps_most_recent_100 [OF a b,
        of "replicate 110 (quietWorld, ''ls'', okResult, None)"]
    by (metis length_replicate)
qed

end
